theory Spec2Isabelle
  imports
    Complex_Main
    "HOL-Library.Multiset"
    "HOL-Library.Sublist"
    "HOL-Library.Char_ord"
    "HOL-Library.List_Lexorder"
    "HOL-Library.Product_Lexorder"
begin

section \<open>Data model\<close>

text \<open>
  A raw sales row as \<^verbatim>\<open>pandas.read_csv\<close> delivers it: every cell may be missing (NaN,
  here \<open>None\<close>). Identifier, date, region and product are text cells (ASCII text), the
  quantity is an integer and the revenue a finite double, which is a rational number. A
  data frame is the list of its rows, each with its index label, in frame order.
\<close>

type_synonym date = "nat \<times> nat \<times> nat"

record row =
  order_id :: "string option"
  order_date :: "string option"
  region :: "string option"
  product :: "string option"
  quantity :: "int option"
  revenue :: "rat option"

type_synonym frame = "(nat \<times> row) list"

text \<open>
  A formatted message: the literal part of the f-string and the value interpolated into it,
  kept apart (the rendering of numbers by \<^verbatim>\<open>str\<close> is not modelled).
\<close>

datatype msg =
    Msg string
  | MsgStr string "string option"
  | MsgInt string int
  | MsgRat string rat
  | MsgList string "string list"

record validation_result =
  record_id :: nat
  stage :: string
  control_type :: string
  status :: string
  reason :: "msg option"

section \<open>validator.py\<close>

definition required_columns :: "string list" where
  "required_columns =
     [''order_id'', ''order_date'', ''region'', ''product'', ''quantity'', ''revenue'']"

definition valid_regions :: "string list" where
  "valid_regions = [''North'', ''South'', ''East'', ''West'', ''Central'']"

definition log_validation_failure ::
  "validation_result list \<Rightarrow> nat \<Rightarrow> string \<Rightarrow> string \<Rightarrow> msg \<Rightarrow> validation_result list" where
  "log_validation_failure validation_results rid stg ct rsn =
     validation_results @
       [\<lparr>record_id = rid, stage = stg, control_type = ct, status = ''FAILED'',
         reason = Some rsn\<rparr>]"

definition log_validation_success ::
  "validation_result list \<Rightarrow> nat \<Rightarrow> string \<Rightarrow> string \<Rightarrow> validation_result list" where
  "log_validation_success validation_results rid stg ct =
     validation_results @
       [\<lparr>record_id = rid, stage = stg, control_type = ct, status = ''PASSED'',
         reason = None\<rparr>]"

text \<open>
  \<^verbatim>\<open>validate_schema\<close>: the frame's column names are checked against the required ones; a
  missing column is logged for record 0 and the check fails. Extra columns only warn.
\<close>

definition validate_schema ::
  "validation_result list \<Rightarrow> string list \<Rightarrow> validation_result list \<times> bool" where
  "validate_schema validation_results columns =
     (let missing_columns = filter (\<lambda>col. col \<notin> set columns) required_columns
      in if missing_columns \<noteq> []
         then (log_validation_failure validation_results 0 ''SCHEMA_VALIDATION''
                 ''MISSING_COLUMNS'' (MsgList ''Missing columns: '' missing_columns), False)
         else (validation_results, True))"

text \<open>
  \<^verbatim>\<open>_validate_date\<close>. The parser \<^verbatim>\<open>pd.to_datetime\<close> is a parameter: \<open>None\<close> is the
  parser raising, which the bare \<^verbatim>\<open>except\<close> turns into a PARSE_ERROR failure.
\<close>

definition validate_date ::
  "(string \<Rightarrow> date option) \<Rightarrow> validation_result list \<Rightarrow> string option \<Rightarrow> nat
     \<Rightarrow> validation_result list \<times> bool" where
  "validate_date to_datetime validation_results date_value record_idx =
     (case date_value of
        None \<Rightarrow>
          (log_validation_failure validation_results record_idx ''DATE_VALIDATION''
             ''MISSING_DATE'' (Msg ''Order date is missing''), False)
      | Some s \<Rightarrow>
          if s = ''invalid_date''
          then (log_validation_failure validation_results record_idx ''DATE_VALIDATION''
                  ''INVALID_FORMAT'' (MsgStr ''Invalid date format: '' (Some s)), False)
          else (case to_datetime s of
                  Some d \<Rightarrow> (validation_results, True)
                | None \<Rightarrow>
                    (log_validation_failure validation_results record_idx ''DATE_VALIDATION''
                       ''PARSE_ERROR'' (MsgStr ''Cannot parse date: '' (Some s)), False)))"

text \<open>
  The body of the loop of \<^verbatim>\<open>validate_records\<close> for one row: the log and the flag
  \<^verbatim>\<open>record_valid\<close> are threaded through the six checks in source order.
\<close>

definition validate_record ::
  "(string \<Rightarrow> date option) \<Rightarrow> validation_result list \<Rightarrow> nat \<Rightarrow> row
     \<Rightarrow> validation_result list \<times> bool" where
  "validate_record to_datetime results0 idx r =
     (let record_valid0 = True;
          (results1, record_valid1) =
            (if order_id r = None \<or> order_id r = Some ''''
             then (log_validation_failure results0 idx ''NULL_CHECK'' ''MISSING_ORDER_ID''
                     (Msg ''Order ID is null or empty''), False)
             else (results0, record_valid0));
          (results2, record_valid2) =
            (if region r = None \<or> region r = Some ''''
             then (log_validation_failure results1 idx ''NULL_CHECK'' ''MISSING_REGION''
                     (Msg ''Region is null or empty''), False)
             else (results1, record_valid1));
          (results3, date_ok) = validate_date to_datetime results2 (order_date r) idx;
          record_valid3 = (if \<not> date_ok then False else record_valid2);
          (results4, record_valid4) =
            (case revenue r of
               Some v \<Rightarrow>
                 if v < 0
                 then (log_validation_failure results3 idx ''BUSINESS_RULE''
                         ''NEGATIVE_REVENUE'' (MsgRat ''Revenue is negative: '' v), False)
                 else (results3, record_valid3)
             | None \<Rightarrow> (results3, record_valid3));
          (results5, record_valid5) =
            (case quantity r of
               Some q \<Rightarrow>
                 if q \<le> 0
                 then (log_validation_failure results4 idx ''BUSINESS_RULE''
                         ''INVALID_QUANTITY'' (MsgInt ''Quantity is zero or negative: '' q),
                       False)
                 else (results4, record_valid4)
             | None \<Rightarrow> (results4, record_valid4));
          (results6, record_valid6) =
            (case region r of
               Some g \<Rightarrow>
                 if g \<notin> set valid_regions
                 then (log_validation_failure results5 idx ''BUSINESS_RULE''
                         ''INVALID_REGION'' (MsgStr ''Invalid region: '' (Some g)), False)
                 else (results5, record_valid5)
             | None \<Rightarrow> (results5, record_valid5))
      in if record_valid6
         then (log_validation_success results6 idx ''RECORD_VALIDATION'' ''PASSED'', True)
         else (results6, False))"

text \<open>
  \<^verbatim>\<open>validate_records\<close>: the loop over \<^verbatim>\<open>df.iterrows()\<close>, with the log and the two
  lists of rows as loop state. Rows keep their index labels in both result frames.
\<close>

fun validate_records_loop ::
  "(string \<Rightarrow> date option) \<Rightarrow> frame \<Rightarrow> validation_result list \<times> frame \<times> frame
     \<Rightarrow> validation_result list \<times> frame \<times> frame" where
  "validate_records_loop to_datetime [] st = st"
| "validate_records_loop to_datetime ((idx, r) # df) (results, valid_records, invalid_records) =
     (case validate_record to_datetime results idx r of
        (results', record_valid) \<Rightarrow>
          if record_valid
          then validate_records_loop to_datetime df
                 (results', valid_records @ [(idx, r)], invalid_records)
          else validate_records_loop to_datetime df
                 (results', valid_records, invalid_records @ [(idx, r)]))"

definition validate_records ::
  "(string \<Rightarrow> date option) \<Rightarrow> validation_result list \<Rightarrow> frame
     \<Rightarrow> validation_result list \<times> frame \<times> frame" where
  "validate_records to_datetime validation_results df =
     validate_records_loop to_datetime df (validation_results, [], [])"

text \<open>
  The two pandas masks used by \<^verbatim>\<open>check_duplicates\<close>, over the column of keys:
  \<^verbatim>\<open>duplicated(keep=False)\<close> marks every key that occurs more than once,
  \<^verbatim>\<open>duplicated(keep='first')\<close> marks every occurrence but the first. pandas takes two
  missing keys as equal, as \<open>None = None\<close> does. \<^verbatim>\<open>drop_duplicates(keep='first')\<close> keeps the
  rows the second mask does not mark.
\<close>

definition duplicated_all :: "'k list \<Rightarrow> bool list" where
  "duplicated_all ks = map (\<lambda>k. 1 < count_list ks k) ks"

fun duplicated_first :: "'k list \<Rightarrow> 'k list \<Rightarrow> bool list" where
  "duplicated_first seen [] = []"
| "duplicated_first seen (k # ks) = (k \<in> set seen) # duplicated_first (k # seen) ks"

definition select_mask :: "'a list \<Rightarrow> bool list \<Rightarrow> 'a list" where
  "select_mask xs flags = map fst (filter snd (zip xs flags))"

definition drop_duplicates :: "frame \<Rightarrow> frame" where
  "drop_duplicates df =
     select_mask df (map Not (duplicated_first [] (map (\<lambda>(idx, r). order_id r) df)))"

definition check_duplicates ::
  "validation_result list \<Rightarrow> frame \<Rightarrow> validation_result list \<times> frame" where
  "check_duplicates validation_results df =
     (let duplicates = select_mask df (duplicated_all (map (\<lambda>(idx, r). order_id r) df))
      in (foldl (\<lambda>results (idx, r).
                   log_validation_failure results idx ''DUPLICATE_CHECK'' ''DUPLICATE_ORDER_ID''
                     (MsgStr ''Duplicate order ID: '' (order_id r)))
            validation_results duplicates,
          drop_duplicates df))"

text \<open>
  The rows that \<^verbatim>\<open>check_duplicates\<close> leaves out of its result: the source never builds
  this frame; it is the complement of the kept rows under the same mask.
\<close>

definition duplicate_dropped :: "frame \<Rightarrow> frame" where
  "duplicate_dropped df =
     select_mask df (duplicated_first [] (map (\<lambda>(idx, r). order_id r) df))"

section \<open>exception\_handler.py\<close>

record exception_record =
  e_run_id :: string
  original_record_id :: nat
  error_category :: string
  pipeline_stage :: string
  error_details :: "msg list"
  raw_data :: row

definition categorize_error :: "row \<Rightarrow> string" where
  "categorize_error record =
     (if order_id record = None \<or> order_id record = Some '''' then ''MISSING_REQUIRED_FIELD''
      else if (case revenue record of Some v \<Rightarrow> v < 0 | None \<Rightarrow> False)
        then ''BUSINESS_RULE_VIOLATION''
      else if order_date record = None \<or> order_date record = Some ''invalid_date''
        then ''DATA_FORMAT_ERROR''
      else if (case quantity record of Some q \<Rightarrow> q \<le> 0 | None \<Rightarrow> False)
        then ''BUSINESS_RULE_VIOLATION''
      else ''DATA_QUALITY_ISSUE'')"

text \<open>
  \<^verbatim>\<open>_generate_error_details\<close>: the list \<^verbatim>\<open>errors\<close> before it is joined with \<^verbatim>\<open>"; "\<close>;
  the empty list stands for the text \<^verbatim>\<open>Unknown error\<close>.
\<close>

definition generate_error_details :: "row \<Rightarrow> msg list" where
  "generate_error_details record =
     (let errors0 = [];
          errors1 = (if order_id record = None \<or> order_id record = Some ''''
                     then errors0 @ [Msg ''Missing order ID''] else errors0);
          errors2 = (if region record = None \<or> region record = Some ''''
                     then errors1 @ [Msg ''Missing region''] else errors1);
          errors3 = (if order_date record = None then errors2 @ [Msg ''Missing order date'']
                     else if order_date record = Some ''invalid_date''
                     then errors2 @ [Msg ''Invalid date format''] else errors2);
          errors4 = (case revenue record of
                       Some v \<Rightarrow> if v < 0 then errors3 @ [MsgRat ''Negative revenue: '' v]
                                 else errors3
                     | None \<Rightarrow> errors3);
          errors5 = (case quantity record of
                       Some q \<Rightarrow> if q \<le> 0 then errors4 @ [MsgInt ''Invalid quantity: '' q]
                                 else errors4
                     | None \<Rightarrow> errors4);
          errors6 = (case region record of
                       Some g \<Rightarrow> if g \<notin> set valid_regions
                                 then errors5 @ [MsgStr ''Invalid region: '' (Some g)]
                                 else errors5
                     | None \<Rightarrow> errors5)
      in if errors6 \<noteq> [] then errors6 else [Msg ''Unknown error''])"

text \<open>
  The list \<^verbatim>\<open>exception_data\<close> that \<^verbatim>\<open>handle_exceptions\<close> builds: one exception record
  per row of the frame it is given, in frame order (the clock reading stored with each
  record is not modelled).
\<close>

definition exception_data :: "string \<Rightarrow> frame \<Rightarrow> string \<Rightarrow> exception_record list" where
  "exception_data run_id invalid_records stage_name =
     map (\<lambda>(idx, record).
            \<lparr>e_run_id = run_id, original_record_id = idx,
             error_category = categorize_error record, pipeline_stage = stage_name,
             error_details = generate_error_details record, raw_data = record\<rparr>)
       invalid_records"

section \<open>The store and the environment\<close>

text \<open>
  The tables the pipeline writes, as lists of rows in insertion order (the serial key of
  each table is not modelled). Exceptions raised inside the run are values of \<open>exn\<close>.
\<close>

type_synonym timestamp = "date \<times> nat"

datatype exn =
    KeyError "string list"
  | ValueError string
  | AttributeError string
  | Exception string
  | OSError string

text \<open>
  A pandas float cell that is not missing holds a double, which is a rational number; a
  computed float is a finite double, NaN or an infinity.
\<close>

datatype float64 = Fin rat | NaN | PosInf | NegInf

record clean_sale =
  c_order_id :: "string option"
  c_order_date :: "date option"
  c_region :: "string option"
  c_product :: "string option"
  c_quantity :: "int option"
  c_revenue :: "rat option"
  revenue_per_unit :: float64
  c_run_id :: string
  processed_timestamp :: timestamp

record summary =
  s_run_id :: string
  total_revenue :: float64
  total_orders :: nat
  s_region :: string
  s_product :: string
  daily_sales :: float64
  calculation_date :: date
  created_timestamp :: timestamp

record database =
  raw_sales :: "(string \<times> row) list"
  validation_results_table :: "(string \<times> validation_result) list"
  clean_sales :: "clean_sale list"
  exceptions :: "exception_record list"
  analytics_summary :: "summary list"

text \<open>
  What the run cannot decide by itself: the outcome of reading the source file, whether a
  write to the store or to a file raises (one point per write, \<open>Fallback\<close> marking the
  writes made from the failure handler), the library's date parsers, its double
  arithmetic and the clock. \<^verbatim>\<open>pd.to_datetime\<close> is called on one cell by the validator,
  which only asks whether it raises (\<open>None\<close>), and on a whole column by the transformer,
  where it sees all the cells at once and, with \<^verbatim>\<open>.dt.date\<close>, either raises or gives
  the date at each position (none for a cell without a date). The sum of a column of doubles, the quotient
  of a double by a non-zero integer (finite, since the divisor is at least one in
  magnitude) and \<^verbatim>\<open>round(2)\<close> of a finite double (which may overflow) are the
  library's. Every \<^verbatim>\<open>datetime.now()\<close> is a reading of its own, named by the place of the
  call. The audit logger is left out: \<^verbatim>\<open>_log_to_db\<close> catches its own failures.
\<close>

datatype io_point =
    InsertRawSales
  | SaveValidationResults
  | SaveExceptionsDb
  | SaveExceptionsCsv
  | DeleteCleanSales
  | InsertCleanSales
  | DeleteSummaries
  | InsertSummaries
  | DeleteBasicSummaries
  | InsertBasicSummaries
  | WriteValidationSummaryCsv
  | Fallback io_point

datatype clock_point =
    ProcessedTimestamp
  | SummaryDate nat
  | SummaryCreated nat
  | BasicDate
  | BasicCreated nat
  | FallbackClock clock_point

record raw_frame =
  columns :: "string list"
  rows :: frame

record environment =
  env_read_csv :: "exn + raw_frame"
  env_fallback_read_csv :: "exn + raw_frame"
  env_fails :: "io_point \<Rightarrow> exn option"
  env_to_datetime :: "string \<Rightarrow> date option"
  env_to_datetime_column :: "string option list \<Rightarrow> exn + (nat \<Rightarrow> date option)"
  env_float_sum :: "rat list \<Rightarrow> float64"
  env_float_divide :: "rat \<Rightarrow> int \<Rightarrow> rat"
  env_float_round2 :: "rat \<Rightarrow> float64"
  env_now :: "clock_point \<Rightarrow> timestamp"

definition in_fallback :: "environment \<Rightarrow> environment" where
  "in_fallback env =
     env\<lparr>env_fails := (\<lambda>p. env_fails env (Fallback p)),
         env_now := (\<lambda>p. env_now env (FallbackClock p))\<rparr>"

section \<open>transformer.py\<close>

text \<open>ASCII model of \<^verbatim>\<open>str.title\<close>: a letter is upper-cased after a non-letter and
  lower-cased after a letter.\<close>

definition is_lower :: "char \<Rightarrow> bool" where
  "is_lower c = (CHR ''a'' \<le> c \<and> c \<le> CHR ''z'')"

definition is_upper :: "char \<Rightarrow> bool" where
  "is_upper c = (CHR ''A'' \<le> c \<and> c \<le> CHR ''Z'')"

definition to_upper :: "char \<Rightarrow> char" where
  "to_upper c = (if is_lower c then char_of (of_char c - (32::nat)) else c)"

definition to_lower :: "char \<Rightarrow> char" where
  "to_lower c = (if is_upper c then char_of (of_char c + (32::nat)) else c)"

fun title_from :: "bool \<Rightarrow> string \<Rightarrow> string" where
  "title_from prev_cased [] = []"
| "title_from prev_cased (c # cs) =
     (if is_lower c \<or> is_upper c
      then (if prev_cased then to_lower c else to_upper c) # title_from True cs
      else c # title_from False cs)"

definition title :: "string \<Rightarrow> string" where
  "title s = title_from False s"

text \<open>
  Element-wise \<^verbatim>\<open>revenue / quantity\<close> of two pandas columns: a missing operand gives NaN,
  a zero divisor gives an infinity or NaN and does not raise. \<^verbatim>\<open>round(2)\<close> leaves NaN and
  the infinities as they are.
\<close>

definition divide_cells :: "environment \<Rightarrow> rat option \<Rightarrow> int option \<Rightarrow> float64" where
  "divide_cells env revenue_cell qty =
     (case revenue_cell of
        None \<Rightarrow> NaN
      | Some v \<Rightarrow>
          (case qty of
             None \<Rightarrow> NaN
           | Some q \<Rightarrow>
               if q = 0 then (if v = 0 then NaN else if 0 < v then PosInf else NegInf)
               else Fin (env_float_divide env v q)))"

fun round_cell :: "environment \<Rightarrow> float64 \<Rightarrow> float64" where
  "round_cell env (Fin x) = env_float_round2 env x"
| "round_cell env NaN = NaN"
| "round_cell env PosInf = PosInf"
| "round_cell env NegInf = NegInf"

definition transform_row :: "environment \<Rightarrow> string \<Rightarrow> row \<Rightarrow> date option \<Rightarrow> clean_sale" where
  "transform_row env run_id r d =
     \<lparr>c_order_id = order_id r, c_order_date = d, c_region = map_option title (region r),
      c_product = product r, c_quantity = quantity r, c_revenue = revenue r,
      revenue_per_unit = round_cell env (divide_cells env (revenue r) (quantity r)),
      c_run_id = run_id, processed_timestamp = env_now env ProcessedTimestamp\<rparr>"

text \<open>\<^verbatim>\<open>_save_clean_data\<close>: delete this run's rows, then append.\<close>

definition save_clean_data ::
  "environment \<Rightarrow> string \<Rightarrow> (nat \<times> clean_sale) list \<Rightarrow> database \<Rightarrow> (exn + unit) \<times> database" where
  "save_clean_data env run_id df db =
     (case env_fails env DeleteCleanSales of
        Some e \<Rightarrow> (Inl e, db)
      | None \<Rightarrow>
          (let db1 = db\<lparr>clean_sales := filter (\<lambda>c. c_run_id c \<noteq> run_id) (clean_sales db)\<rparr>
           in case env_fails env InsertCleanSales of
                Some e \<Rightarrow> (Inl e, db1)
              | None \<Rightarrow> (Inr (), db1\<lparr>clean_sales := clean_sales db1 @ map snd df\<rparr>)))"

text \<open>
  The aggregations of \<^verbatim>\<open>_generate_analytics_summaries\<close>. \<^verbatim>\<open>sum\<close> skips missing
  revenues and is zero when none is left, \<^verbatim>\<open>count\<close> counts the present identifiers, and
  \<^verbatim>\<open>groupby\<close> yields one group per key present in the column, in sorted key order,
  leaving out rows whose key is missing.
\<close>

definition sum_revenue :: "environment \<Rightarrow> rat option list \<Rightarrow> float64" where
  "sum_revenue env cells =
     (let present = List.map_filter (\<lambda>c. c) cells
      in if present = [] then Fin 0 else env_float_sum env present)"

definition count_cells :: "'a option list \<Rightarrow> nat" where
  "count_cells cells = length (filter (\<lambda>c. c \<noteq> None) cells)"

definition groupby ::
  "environment \<Rightarrow> (clean_sale \<Rightarrow> 'k::linorder option) \<Rightarrow> clean_sale list
     \<Rightarrow> ('k \<times> float64 \<times> nat) list" where
  "groupby env key df =
     map (\<lambda>k. (k, sum_revenue env (map c_revenue (filter (\<lambda>c. key c = Some k) df)),
                  count_cells (map c_order_id (filter (\<lambda>c. key c = Some k) df))))
       (sort (remdups (List.map_filter key df)))"

text \<open>
  The rows that \<^verbatim>\<open>_generate_analytics_summaries\<close> appends to \<^verbatim>\<open>summaries\<close>, in order:
  the grand total, one row per region present, one per product present, one per order
  date present. \<open>summary_groups\<close> gives revenue, count, region, product and, for a daily
  row, the order date that becomes its calculation date; \<open>analytics_summaries\<close> adds the
  run identifier and the clock readings of each row, named by the row's position.
\<close>

definition summary_groups ::
  "environment \<Rightarrow> clean_sale list \<Rightarrow> (float64 \<times> nat \<times> string \<times> string \<times> date option) list" where
  "summary_groups env df =
     (let total_summary =
            (sum_revenue env (map c_revenue df), length df, ''ALL'', ''ALL'', None);
          regional =
            map (\<lambda>(k, amount, cnt). (amount, cnt, k, ''ALL'', None)) (groupby env c_region df);
          by_product =
            map (\<lambda>(k, amount, cnt). (amount, cnt, ''ALL'', k, None)) (groupby env c_product df);
          daily =
            map (\<lambda>(k, amount, cnt). (amount, cnt, ''ALL'', ''ALL'', Some k))
              (groupby env c_order_date df)
      in [total_summary] @ regional @ by_product @ daily)"

definition analytics_summaries :: "environment \<Rightarrow> string \<Rightarrow> clean_sale list \<Rightarrow> summary list" where
  "analytics_summaries env run_id df =
     map (\<lambda>(i, amount, cnt, g, p, d).
            \<lparr>s_run_id = run_id, total_revenue = amount, total_orders = cnt, s_region = g,
             s_product = p, daily_sales = amount,
             calculation_date = (case d of
                                   None \<Rightarrow> fst (env_now env (SummaryDate i))
                                 | Some k \<Rightarrow> k),
             created_timestamp = env_now env (SummaryCreated i)\<rparr>)
       (enumerate 0 (summary_groups env df))"

text \<open>
  The two statements on the summary table that both aggregation steps issue: delete the
  summaries of this run and commit; append new ones. Each may raise.
\<close>

definition delete_summaries ::
  "exn option \<Rightarrow> string \<Rightarrow> database \<Rightarrow> (exn + unit) \<times> database" where
  "delete_summaries fails run_id db =
     (case fails of
        Some e \<Rightarrow> (Inl e, db)
      | None \<Rightarrow>
          (Inr (), db\<lparr>analytics_summary :=
                         filter (\<lambda>s. s_run_id s \<noteq> run_id) (analytics_summary db)\<rparr>))"

definition insert_summaries ::
  "exn option \<Rightarrow> summary list \<Rightarrow> database \<Rightarrow> (exn + unit) \<times> database" where
  "insert_summaries fails summaries db =
     (case fails of
        Some e \<Rightarrow> (Inl e, db)
      | None \<Rightarrow> (Inr (), db\<lparr>analytics_summary := analytics_summary db @ summaries\<rparr>))"

definition generate_analytics_summaries ::
  "environment \<Rightarrow> string \<Rightarrow> (nat \<times> clean_sale) list \<Rightarrow> database \<Rightarrow> (exn + unit) \<times> database" where
  "generate_analytics_summaries env run_id df db =
     (let summaries = analytics_summaries env run_id (map snd df)
      in case delete_summaries (env_fails env DeleteSummaries) run_id db of
           (Inl e, db1) \<Rightarrow> (Inl e, db1)
         | (Inr u, db1) \<Rightarrow> insert_summaries (env_fails env InsertSummaries) summaries db1)"

text \<open>
  The \<^verbatim>\<open>.str\<close> accessor of a pandas column raises when the column holds no text at all
  (a non-empty column of missing cells only is a float column).
\<close>

definition str_accessor :: "string option list \<Rightarrow> exn + unit" where
  "str_accessor cells =
     (if cells \<noteq> [] \<and> list_all (\<lambda>c. c = None) cells
      then Inl (AttributeError ''Can only use .str accessor with string values!'')
      else Inr ())"

definition transform_clean_data ::
  "environment \<Rightarrow> string \<Rightarrow> frame \<Rightarrow> database
     \<Rightarrow> (exn + (nat \<times> clean_sale) list) \<times> database" where
  "transform_clean_data env run_id clean_df db =
     (if clean_df = [] then (Inr [], db)
      else
        (case env_to_datetime_column env (map (\<lambda>(idx, r). order_date r) clean_df) of
           Inl e \<Rightarrow> (Inl e, db)
         | Inr dates \<Rightarrow>
             (case str_accessor (map (\<lambda>(idx, r). region r) clean_df) of
                Inl e \<Rightarrow> (Inl e, db)
              | Inr u0 \<Rightarrow>
                  (let transformed_df =
                         map (\<lambda>(i, idx, r). (idx, transform_row env run_id r (dates i)))
                           (enumerate 0 clean_df)
                   in case save_clean_data env run_id transformed_df db of
                        (Inl e, db1) \<Rightarrow> (Inl e, db1)
                      | (Inr u, db1) \<Rightarrow>
                          (case generate_analytics_summaries env run_id transformed_df db1 of
                             (Inl e, db2) \<Rightarrow> (Inl e, db2)
                           | (Inr u', db2) \<Rightarrow> (Inr transformed_df, db2))))))"

section \<open>pipeline.py\<close>

definition original_columns :: "string list" where
  "original_columns =
     [''order_id'', ''order_date'', ''region'', ''product'', ''quantity'', ''revenue'']"

text \<open>
  \<^verbatim>\<open>_ingest_data\<close>: read the file, append the raw rows to the store, and select the six
  original columns, which raises when one of them is absent. Its handler logs and re-raises.
\<close>

definition ingest_data :: "environment \<Rightarrow> string \<Rightarrow> database \<Rightarrow> (exn + frame) \<times> database" where
  "ingest_data env run_id db =
     (case env_read_csv env of
        Inl e \<Rightarrow> (Inl e, db)
      | Inr df \<Rightarrow>
          (case env_fails env InsertRawSales of
             Some e \<Rightarrow> (Inl e, db)
           | None \<Rightarrow>
               (let db1 = db\<lparr>raw_sales := raw_sales db @ map (\<lambda>(idx, r). (run_id, r)) (rows df)\<rparr>;
                    absent = filter (\<lambda>col. col \<notin> set (columns df)) original_columns
                in if absent \<noteq> [] then (Inl (KeyError absent), db1)
                   else (Inr (rows df), db1))))"

text \<open>
  \<^verbatim>\<open>_validate_data\<close> with a fresh validator: schema check on the selected columns, record
  validation, duplicate check, then \<^verbatim>\<open>save_validation_results\<close>, which writes nothing
  when the log is empty. It returns the deduplicated clean frame and the frame of the
  records that failed a rule, with the validator's log.
\<close>

definition validate_data ::
  "environment \<Rightarrow> string \<Rightarrow> frame \<Rightarrow> database
     \<Rightarrow> (exn + frame \<times> frame \<times> validation_result list) \<times> database" where
  "validate_data env run_id df db =
     (case validate_schema [] original_columns of
        (results0, schema_ok) \<Rightarrow>
          if \<not> schema_ok then (Inl (Exception ''Schema validation failed''), db)
          else
            (case validate_records (env_to_datetime env) results0 df of
               (results1, valid_df, invalid_df) \<Rightarrow>
                 (case check_duplicates results1 valid_df of
                    (results2, clean_df) \<Rightarrow>
                      if results2 = [] then (Inr (clean_df, invalid_df, results2), db)
                      else
                        (case env_fails env SaveValidationResults of
                           Some e \<Rightarrow> (Inl e, db)
                         | None \<Rightarrow>
                             (Inr (clean_df, invalid_df, results2),
                              db\<lparr>validation_results_table :=
                                    validation_results_table db @
                                      map (\<lambda>v. (run_id, v)) results2\<rparr>)))))"

text \<open>
  \<^verbatim>\<open>handle_exceptions\<close>: nothing happens on an empty frame; otherwise the exception
  records are appended to the store and written to a file.
\<close>

definition handle_exceptions ::
  "environment \<Rightarrow> string \<Rightarrow> frame \<Rightarrow> string \<Rightarrow> database \<Rightarrow> (exn + unit) \<times> database" where
  "handle_exceptions env run_id invalid_records stage_name db =
     (if invalid_records = [] then (Inr (), db)
      else
        (case env_fails env SaveExceptionsDb of
           Some e \<Rightarrow> (Inl e, db)
         | None \<Rightarrow>
             (let db1 = db\<lparr>exceptions :=
                              exceptions db @ exception_data run_id invalid_records stage_name\<rparr>
              in case env_fails env SaveExceptionsCsv of
                   Some e \<Rightarrow> (Inl e, db1)
                 | None \<Rightarrow> (Inr (), db1))))"

text \<open>
  The rows \<^verbatim>\<open>_generate_basic_analytics\<close> builds from the clean frame: a grand total, one
  row per region of the fixed list and one row per product of the fixed list, matched by
  the first word of the product name, all dated by one reading of the clock and each
  stamped by a reading of its own. \<^verbatim>\<open>str.contains\<close> with \<^verbatim>\<open>na=False\<close> takes a
  missing cell as no match; the first words hold no regular-expression operator, so the
  match is a substring test.
\<close>

definition regions :: "string list" where
  "regions = [''North'', ''South'', ''East'', ''West'', ''Central'']"

definition products :: "string list" where
  "products = [''Tomato Ketchup 500g'', ''Chicken Biryani Ready Meal'', ''Paneer 200g'',
               ''Potato Chips 50g'', ''Mango Juice 1L'']"

definition split_first :: "string \<Rightarrow> string" where
  "split_first s = takeWhile (\<lambda>c. c \<noteq> CHR '' '') (dropWhile (\<lambda>c. c = CHR '' '') s)"

definition str_contains :: "string option \<Rightarrow> string \<Rightarrow> bool" where
  "str_contains cell pat = (case cell of None \<Rightarrow> False | Some s \<Rightarrow> sublist pat s)"

definition basic_summary ::
  "environment \<Rightarrow> string \<Rightarrow> nat \<Rightarrow> string \<Rightarrow> string \<Rightarrow> frame \<Rightarrow> summary" where
  "basic_summary env run_id i region_name product_name selected =
     \<lparr>s_run_id = run_id,
      total_revenue = (if selected \<noteq> []
                       then sum_revenue env (map (\<lambda>(idx, r). revenue r) selected)
                       else Fin 0),
      total_orders = (if selected \<noteq> [] then length selected else 0),
      s_region = region_name, s_product = product_name,
      daily_sales = (if selected \<noteq> []
                     then sum_revenue env (map (\<lambda>(idx, r). revenue r) selected)
                     else Fin 0),
      calculation_date = fst (env_now env BasicDate),
      created_timestamp = env_now env (BasicCreated i)\<rparr>"

definition basic_summaries :: "environment \<Rightarrow> string \<Rightarrow> frame \<Rightarrow> exn + summary list" where
  "basic_summaries env run_id clean_df =
     (let total_summary = basic_summary env run_id 0 ''ALL'' ''ALL'' clean_df;
          regional =
            map (\<lambda>(i, g). basic_summary env run_id i g ''ALL''
                             (if clean_df \<noteq> []
                              then filter (\<lambda>(idx, r). region r = Some g) clean_df
                              else []))
              (enumerate 1 regions)
      in case (if clean_df \<noteq> [] then str_accessor (map (\<lambda>(idx, r). product r) clean_df)
               else Inr ()) of
           Inl e \<Rightarrow> Inl e
         | Inr u \<Rightarrow>
             Inr ([total_summary] @ regional @
                  map (\<lambda>(i, p). basic_summary env run_id i ''ALL'' p
                                   (if clean_df \<noteq> []
                                    then filter (\<lambda>(idx, r). str_contains (product r)
                                                               (split_first p))
                                           clean_df
                                    else []))
                    (enumerate (1 + length regions) products)))"

definition generate_basic_analytics ::
  "environment \<Rightarrow> string \<Rightarrow> frame \<Rightarrow> frame \<Rightarrow> frame \<Rightarrow> database \<Rightarrow> (exn + unit) \<times> database" where
  "generate_basic_analytics env run_id raw_df clean_df invalid_df db =
     (case delete_summaries (env_fails env DeleteBasicSummaries) run_id db of
        (Inl e, db1) \<Rightarrow> (Inl e, db1)
      | (Inr u, db1) \<Rightarrow>
          (case basic_summaries env run_id clean_df of
             Inl e \<Rightarrow> (Inl e, db1)
           | Inr summaries \<Rightarrow>
               if summaries \<noteq> []
               then insert_summaries (env_fails env InsertBasicSummaries) summaries db1
               else (Inr (), db1)))"

text \<open>
  \<^verbatim>\<open>generate_validation_summary\<close>: the counts over the validator's log and the failures
  per control type, in order of first occurrence (the percentage is not modelled); the
  summary is also written to a file.
\<close>

record validation_summary =
  vs_run_id :: string
  total_checks :: nat
  passed_checks :: nat
  failed_checks :: nat
  failure_breakdown :: "(string \<times> nat) list"

fun increment :: "string \<Rightarrow> (string \<times> nat) list \<Rightarrow> (string \<times> nat) list" where
  "increment k [] = [(k, 1)]"
| "increment k ((k', n) # kvs) =
     (if k = k' then (k', n + 1) # kvs else (k', n) # increment k kvs)"

definition generate_validation_summary ::
  "environment \<Rightarrow> string \<Rightarrow> validation_result list \<Rightarrow> exn + validation_summary" where
  "generate_validation_summary env run_id validation_results =
     (let n_checks = length validation_results;
          failed = length (filter (\<lambda>v. status v = ''FAILED'') validation_results);
          breakdown = foldl (\<lambda>d v. if status v = ''FAILED'' then increment (control_type v) d
                                    else d) [] validation_results
      in case env_fails env WriteValidationSummaryCsv of
           Some e \<Rightarrow> Inl e
         | None \<Rightarrow>
             Inr \<lparr>vs_run_id = run_id, total_checks = n_checks, passed_checks = n_checks - failed,
                  failed_checks = failed, failure_breakdown = breakdown\<rparr>)"

text \<open>
  \<^verbatim>\<open>run_pipeline\<close>. \<open>pipeline_steps\<close> is the body of the \<^verbatim>\<open>try\<close> block up to the
  \<^verbatim>\<open>return\<close>: the first step that raises ends it. The handler records the exception,
  runs the basic analytics on empty clean and invalid frames inside a second \<^verbatim>\<open>try\<close>
  whose bare \<^verbatim>\<open>except\<close> discards any exception (what it already wrote stays), and
  returns the FAILED summary carrying the exception whose text is the error message.
\<close>

record run_summary =
  rs_run_id :: string
  rs_status :: string
  rs_total_records :: "nat option"
  rs_clean_records :: "nat option"
  rs_invalid_records :: "nat option"
  rs_validation_summary :: "validation_summary option"
  rs_error :: "exn option"

definition pipeline_steps ::
  "environment \<Rightarrow> string \<Rightarrow> database
     \<Rightarrow> (exn + nat \<times> nat \<times> nat \<times> validation_summary) \<times> database" where
  "pipeline_steps env run_id db =
     (case ingest_data env run_id db of
        (Inl e, db1) \<Rightarrow> (Inl e, db1)
      | (Inr raw_df, db1) \<Rightarrow>
          (case validate_data env run_id raw_df db1 of
             (Inl e, db2) \<Rightarrow> (Inl e, db2)
           | (Inr (clean_df, invalid_df, validation_results), db2) \<Rightarrow>
               (case handle_exceptions env run_id invalid_df ''VALIDATION'' db2 of
                  (Inl e, db3) \<Rightarrow> (Inl e, db3)
                | (Inr u, db3) \<Rightarrow>
                    (case transform_clean_data env run_id clean_df db3 of
                       (Inl e, db4) \<Rightarrow> (Inl e, db4)
                     | (Inr final_df, db4) \<Rightarrow>
                         (case generate_basic_analytics env run_id raw_df clean_df invalid_df
                                 db4 of
                            (Inl e, db5) \<Rightarrow> (Inl e, db5)
                          | (Inr u', db5) \<Rightarrow>
                              (case generate_validation_summary env run_id
                                      validation_results of
                                 Inl e \<Rightarrow> (Inl e, db5)
                               | Inr vs \<Rightarrow>
                                   (Inr (length raw_df, length clean_df, length invalid_df,
                                         vs), db5)))))))"

definition fallback_analytics ::
  "environment \<Rightarrow> string \<Rightarrow> database \<Rightarrow> (exn + unit) \<times> database" where
  "fallback_analytics env run_id db =
     (case env_fallback_read_csv env of
        Inl e \<Rightarrow> (Inl e, db)
      | Inr raw_df \<Rightarrow> generate_basic_analytics (in_fallback env) run_id (rows raw_df) [] [] db)"

definition run_pipeline ::
  "environment \<Rightarrow> string \<Rightarrow> database \<Rightarrow> (exn + run_summary) \<times> database" where
  "run_pipeline env run_id db =
     (case pipeline_steps env run_id db of
        (Inr (n_total, n_clean, n_invalid, vs), db1) \<Rightarrow>
          (Inr \<lparr>rs_run_id = run_id, rs_status = ''SUCCESS'', rs_total_records = Some n_total,
                rs_clean_records = Some n_clean, rs_invalid_records = Some n_invalid,
                rs_validation_summary = Some vs, rs_error = None\<rparr>, db1)
      | (Inl e, db1) \<Rightarrow>
          (let db2 = snd (fallback_analytics env run_id db1)
           in (Inr \<lparr>rs_run_id = run_id, rs_status = ''FAILED'', rs_total_records = None,
                    rs_clean_records = None, rs_invalid_records = None,
                    rs_validation_summary = None, rs_error = Some e\<rparr>, db2)))"

section \<open>Derived notions and sample data\<close>

text \<open>
  The notions the properties are stated with (the log entries of one record, the three
  populations of the validation stage, the summaries of a run) and the concrete batches
  and environments the properties are evaluated on. The sample environment parses the
  two dates of the samples, its clock stands at 2024-03-01, and its arithmetic is exact
  and its rounding the identity, which is what double arithmetic gives on the small
  integers of the samples.
\<close>

definition failure :: "nat \<Rightarrow> string \<Rightarrow> string \<Rightarrow> msg \<Rightarrow> validation_result" where
  "failure rid stg ct rsn =
     \<lparr>record_id = rid, stage = stg, control_type = ct, status = ''FAILED'', reason = Some rsn\<rparr>"

definition passed :: "nat \<Rightarrow> validation_result" where
  "passed idx = \<lparr>record_id = idx, stage = ''RECORD_VALIDATION'', control_type = ''PASSED'',
      status = ''PASSED'', reason = None\<rparr>"

definition date_failures ::
  "(string \<Rightarrow> date option) \<Rightarrow> nat \<Rightarrow> string option \<Rightarrow> validation_result list" where
  "date_failures td idx dv =
     (case dv of
        None \<Rightarrow> [failure idx ''DATE_VALIDATION'' ''MISSING_DATE'' (Msg ''Order date is missing'')]
      | Some s \<Rightarrow>
          if s = ''invalid_date''
          then [failure idx ''DATE_VALIDATION'' ''INVALID_FORMAT''
                  (MsgStr ''Invalid date format: '' (Some s))]
          else (case td s of
                  Some d \<Rightarrow> []
                | None \<Rightarrow> [failure idx ''DATE_VALIDATION'' ''PARSE_ERROR''
                            (MsgStr ''Cannot parse date: '' (Some s))]))"

definition rule_failures ::
  "(string \<Rightarrow> date option) \<Rightarrow> nat \<Rightarrow> row \<Rightarrow> validation_result list" where
  "rule_failures td idx r =
     (if order_id r = None \<or> order_id r = Some ''''
      then [failure idx ''NULL_CHECK'' ''MISSING_ORDER_ID'' (Msg ''Order ID is null or empty'')]
      else []) @
     (if region r = None \<or> region r = Some ''''
      then [failure idx ''NULL_CHECK'' ''MISSING_REGION'' (Msg ''Region is null or empty'')]
      else []) @
     date_failures td idx (order_date r) @
     (case revenue r of
        Some v \<Rightarrow> if v < 0
                  then [failure idx ''BUSINESS_RULE'' ''NEGATIVE_REVENUE''
                          (MsgRat ''Revenue is negative: '' v)]
                  else []
      | None \<Rightarrow> []) @
     (case quantity r of
        Some q \<Rightarrow> if q \<le> 0
                  then [failure idx ''BUSINESS_RULE'' ''INVALID_QUANTITY''
                          (MsgInt ''Quantity is zero or negative: '' q)]
                  else []
      | None \<Rightarrow> []) @
     (case region r of
        Some g \<Rightarrow> if g \<notin> set valid_regions
                  then [failure idx ''BUSINESS_RULE'' ''INVALID_REGION''
                          (MsgStr ''Invalid region: '' (Some g))]
                  else []
      | None \<Rightarrow> [])"

definition record_entries ::
  "(string \<Rightarrow> date option) \<Rightarrow> nat \<Rightarrow> row \<Rightarrow> validation_result list" where
  "record_entries td idx r =
     rule_failures td idx r @ (if rule_failures td idx r = [] then [passed idx] else [])"

definition accepted :: "(string \<Rightarrow> date option) \<Rightarrow> nat \<times> row \<Rightarrow> bool" where
  "accepted td = (\<lambda>(idx, r). rule_failures td idx r = [])"

definition violations ::
  "(string \<Rightarrow> date option) \<Rightarrow> validation_result list \<Rightarrow> nat \<Rightarrow> row \<Rightarrow> string list" where
  "violations td res idx r =
     map control_type
       (filter (\<lambda>v. status v = ''FAILED'')
          (drop (length res) (fst (validate_record td res idx r))))"

definition sample_to_datetime :: "string \<Rightarrow> date option" where
  "sample_to_datetime s =
     (if s = ''2024-01-15'' then Some (2024, 1, 15)
      else if s = ''2024-02-01'' then Some (2024, 2, 1)
      else None)"

definition sample_row :: "string \<Rightarrow> string \<Rightarrow> int \<Rightarrow> rat \<Rightarrow> row" where
  "sample_row oid reg qty amount =
     \<lparr>order_id = Some oid, order_date = Some ''2024-01-15'', region = Some reg,
      product = Some ''Tomato Ketchup 500g'', quantity = Some qty, revenue = Some amount\<rparr>"

definition violation_count :: "(string \<Rightarrow> date option) \<Rightarrow> row \<Rightarrow> nat" where
  "violation_count td r =
     (if order_id r = None \<or> order_id r = Some '''' then 1 else 0) +
     (if region r = None \<or> region r = Some '''' then 1 else 0) +
     (if (case order_date r of None \<Rightarrow> True
          | Some s \<Rightarrow> s = ''invalid_date'' \<or> td s = None) then 1 else 0) +
     (if (case revenue r of None \<Rightarrow> False | Some v \<Rightarrow> v < 0) then 1 else 0) +
     (if (case quantity r of None \<Rightarrow> False | Some q \<Rightarrow> q \<le> 0) then 1 else 0) +
     (if (case region r of None \<Rightarrow> False | Some g \<Rightarrow> g \<notin> set valid_regions) then 1 else 0)"

definition entries_of :: "nat \<Rightarrow> string \<Rightarrow> validation_result list \<Rightarrow> validation_result list" where
  "entries_of idx st new = filter (\<lambda>v. record_id v = idx \<and> status v = st) new"

definition sample_batch :: frame where
  "sample_batch =
     [(0, sample_row ''A'' ''North'' 5 100),
      (1, sample_row ''A'' ''North'' 3 60),
      (2, sample_row [] ''South'' 2 20)]"

definition key_of :: "nat \<times> row \<Rightarrow> string option" where
  "key_of = (\<lambda>(idx, r). order_id r)"

definition duplicate_entry :: "nat \<times> row \<Rightarrow> validation_result" where
  "duplicate_entry = (\<lambda>(idx, r).
     failure idx ''DUPLICATE_CHECK'' ''DUPLICATE_ORDER_ID''
       (MsgStr ''Duplicate order ID: '' (order_id r)))"

definition validation_stage ::
  "(string \<Rightarrow> date option) \<Rightarrow> frame \<Rightarrow> frame \<times> frame \<times> frame" where
  "validation_stage td df =
     (case validate_records td [] df of
        (results1, valid_df, invalid_df) \<Rightarrow>
          (case check_duplicates results1 valid_df of
             (results2, clean_df) \<Rightarrow> (clean_df, duplicate_dropped valid_df, invalid_df)))"

definition duplicate_batch :: frame where
  "duplicate_batch =
     [(0, sample_row ''A'' ''North'' 5 100),
      (1, sample_row ''B'' ''South'' 1 10),
      (2, sample_row ''A'' ''East'' 3 60),
      (3, sample_row ''A'' ''West'' 2 20)]"

definition no_quantity_row :: row where
  "no_quantity_row =
     \<lparr>order_id = Some ''A'', order_date = Some ''2024-01-15'', region = Some ''North'',
      product = Some ''Paneer 200g'', quantity = None, revenue = Some 100\<rparr>"

text \<open>
  The sample environment: the file holds the sample batch, no write fails, the column
  parser raises on the first text the cell parser rejects, the clock stands still.
\<close>

definition sample_to_datetime_column :: "string option list \<Rightarrow> exn + (nat \<Rightarrow> date option)" where
  "sample_to_datetime_column cells =
     (case filter (\<lambda>c. case c of None \<Rightarrow> False | Some s \<Rightarrow> sample_to_datetime s = None) cells of
        Some s # rest \<Rightarrow> Inl (ValueError s)
      | other \<Rightarrow>
          Inr (\<lambda>i. if i < length cells
                    then (case cells ! i of None \<Rightarrow> None | Some s \<Rightarrow> sample_to_datetime s)
                    else None))"

definition sample_clock :: "clock_point \<Rightarrow> timestamp" where
  "sample_clock p = ((2024, 3, 1), 0)"

definition sample_env :: environment where
  "sample_env =
     \<lparr>env_read_csv = Inr \<lparr>columns = original_columns, rows = sample_batch\<rparr>,
      env_fallback_read_csv = Inr \<lparr>columns = original_columns, rows = sample_batch\<rparr>,
      env_fails = (\<lambda>p. None),
      env_to_datetime = sample_to_datetime,
      env_to_datetime_column = sample_to_datetime_column,
      env_float_sum = (\<lambda>xs. Fin (sum_list xs)),
      env_float_divide = (\<lambda>v q. v / of_int q),
      env_float_round2 = (\<lambda>x. Fin x),
      env_now = sample_clock\<rparr>"

definition empty_db :: database where
  "empty_db =
     \<lparr>raw_sales = [], validation_results_table = [], clean_sales = [], exceptions = [],
      analytics_summary = []\<rparr>"

text \<open>Sample rows and batches for the quantity and the category of a record.\<close>

definition quantity_batch :: frame where
  "quantity_batch = [(0, no_quantity_row), (1, sample_row ''B'' ''North'' 5 100)]"

definition zero_quantity_no_date_row :: row where
  "zero_quantity_no_date_row =
     \<lparr>order_id = Some ''A'', order_date = None, region = Some ''North'',
      product = Some ''Paneer 200g'', quantity = Some 0, revenue = Some 10\<rparr>"

definition unparseable_date_row :: row where
  "unparseable_date_row =
     \<lparr>order_id = Some ''A'', order_date = Some ''31/31/2024'', region = Some ''North'',
      product = Some ''Paneer 200g'', quantity = Some 1, revenue = Some 10\<rparr>"

text \<open>The summaries in the store that belong to a run, and those of the other runs.\<close>

definition run_rows :: "string \<Rightarrow> database \<Rightarrow> summary list" where
  "run_rows run_id db = filter (\<lambda>s. s_run_id s = run_id) (analytics_summary db)"

definition other_rows :: "string \<Rightarrow> database \<Rightarrow> summary list" where
  "other_rows run_id db = filter (\<lambda>s. s_run_id s \<noteq> run_id) (analytics_summary db)"






text \<open>The columns of a summary other than its creation time; a later clock on the same day.\<close>

definition summary_columns ::
  "summary \<Rightarrow> string \<times> float64 \<times> nat \<times> string \<times> string \<times> float64 \<times> date" where
  "summary_columns s =
     (s_run_id s, total_revenue s, total_orders s, s_region s, s_product s, daily_sales s,
      calculation_date s)"

definition later_clock :: "clock_point \<Rightarrow> timestamp" where
  "later_clock p = ((2024, 3, 1), 7)"

definition sample_clean :: "(nat \<times> clean_sale) list" where
  "sample_clean =
     [(0, transform_row sample_env ''run1'' (sample_row ''A'' ''North'' 5 100)
            (Some (2024, 1, 15)))]"

text \<open>
  The records that a row of the basic analytics summarises: those of its region, unless
  the region is ALL, whose product contains the first word of its product, unless the
  product is ALL.
\<close>

definition matching :: "summary \<Rightarrow> frame \<Rightarrow> frame" where
  "matching s df =
     filter (\<lambda>(idx, r).
               (s_region s = ''ALL'' \<or> region r = Some (s_region s)) \<and>
               (s_product s = ''ALL'' \<or> str_contains (product r) (split_first (s_product s))))
       df"

section \<open>Properties\<close>

lemma step_if:
  "(if c then (log_validation_failure res i s t m, False) else (res, v)) =
     (res @ (if c then [failure i s t m] else []), v \<and> (if c then [failure i s t m] else []) = [])"
  by (simp add: log_validation_failure_def failure_def)

lemma step_opt:
  "(case x of None \<Rightarrow> (res, b) | Some v \<Rightarrow> (res @ f v, b \<and> f v = [])) =
     (res @ (case x of None \<Rightarrow> [] | Some v \<Rightarrow> f v),
      b \<and> (case x of None \<Rightarrow> [] | Some v \<Rightarrow> f v) = [])"
  by (simp split: option.split)

lemma combine_checks:
  "(if ((((if a3 \<noteq> [] then False else (True \<and> a1 = []) \<and> a2 = []) \<and> a4 = []) \<and> a5 = []) \<and> a6 = [])
    then (((((((res @ a1) @ a2) @ a3) @ a4) @ a5) @ a6) @ [p], True)
    else ((((((res @ a1) @ a2) @ a3) @ a4) @ a5) @ a6, False)) =
   (res @ (a1 @ a2 @ a3 @ a4 @ a5 @ a6) @
      (if a1 @ a2 @ a3 @ a4 @ a5 @ a6 = [] then [p] else []),
    a1 @ a2 @ a3 @ a4 @ a5 @ a6 = [])"
  by auto

lemma validate_date_eq:
  "validate_date td res dv idx = (res @ date_failures td idx dv, date_failures td idx dv = [])"
  by (simp add: validate_date_def date_failures_def log_validation_failure_def failure_def
        split: option.split)

lemma log_success_eq:
  "log_validation_success res idx ''RECORD_VALIDATION'' ''PASSED'' = res @ [passed idx]"
  by (simp add: log_validation_success_def passed_def)

lemma validate_record_eq:
  "validate_record td res idx r =
     (res @ rule_failures td idx r @ (if rule_failures td idx r = [] then [passed idx] else []),
      rule_failures td idx r = [])"
  unfolding validate_record_def Let_def step_if step_opt validate_date_eq prod.case
    log_success_eq rule_failures_def
  by (rule combine_checks)

lemma validate_records_loop_eq:
  "validate_records_loop td df (res, v, i) =
     (res @ concat (map (\<lambda>(idx, r). record_entries td idx r) df),
      v @ filter (accepted td) df, i @ filter (\<lambda>x. \<not> accepted td x) df)"
proof (induction df arbitrary: res v i)
  case Nil
  show ?case by simp
next
  case (Cons x df)
  obtain idx r where x: "x = (idx, r)" by (cases x)
  show ?case
    unfolding x
    by (simp add: validate_record_eq Cons.IH accepted_def record_entries_def)
qed

lemma validate_records_eq:
  "validate_records td res df =
     (res @ concat (map (\<lambda>(idx, r). record_entries td idx r) df),
      filter (accepted td) df, filter (\<lambda>x. \<not> accepted td x) df)"
  by (simp add: validate_records_def validate_records_loop_eq)

lemma failure_sel [simp]:
  "record_id (failure i s t m) = i" "stage (failure i s t m) = s"
  "control_type (failure i s t m) = t" "status (failure i s t m) = ''FAILED''"
  by (simp_all add: failure_def)

lemma passed_sel [simp]:
  "record_id (passed i) = i" "control_type (passed i) = ''PASSED''"
  "status (passed i) = ''PASSED''"
  by (simp_all add: passed_def)

lemma date_failures_failed:
  "v \<in> set (date_failures td idx dv) \<Longrightarrow> status v = ''FAILED'' \<and> record_id v = idx"
  by (auto simp: date_failures_def split: option.splits if_splits)

lemma rule_failures_failed:
  "v \<in> set (rule_failures td idx r) \<Longrightarrow> status v = ''FAILED'' \<and> record_id v = idx"
  unfolding rule_failures_def set_append Un_iff
  by (elim disjE) (auto dest: date_failures_failed split: option.splits if_splits)

lemma filter_failed_rule_failures:
  "filter (\<lambda>v. status v = ''FAILED'') (rule_failures td idx r) = rule_failures td idx r"
  by (rule filter_True) (simp add: rule_failures_failed)

lemma violations_eq: "violations td res idx r = map control_type (rule_failures td idx r)"
  by (simp add: violations_def validate_record_eq filter_failed_rule_failures)

lemma mem_if_single: "(x \<in> set (if c then [y] else [])) = (c \<and> x = y)"
  by auto

lemma mem_case_single:
  "(x \<in> set (case opt of None \<Rightarrow> [] | Some v \<Rightarrow> if P v then [y] else [])) =
     (x = y \<and> (\<exists>v. opt = Some v \<and> P v))"
  by (cases opt) auto

lemma mem_date_names:
  "(x \<in> set (case dv of None \<Rightarrow> [a] | Some s \<Rightarrow> if s = k then [b] else
       (case td s of Some d \<Rightarrow> [] | None \<Rightarrow> [c]))) =
   (x = a \<and> dv = None \<or> x = b \<and> dv = Some k \<or>
    x = c \<and> (\<exists>s. dv = Some s \<and> s \<noteq> k \<and> td s = None))"
  by (cases dv) (auto split: option.splits)

lemma rule_names:
  "map control_type (rule_failures td idx r) =
     (if order_id r = None \<or> order_id r = Some '''' then [''MISSING_ORDER_ID''] else []) @
     (if region r = None \<or> region r = Some '''' then [''MISSING_REGION''] else []) @
     (case order_date r of
        None \<Rightarrow> [''MISSING_DATE'']
      | Some s \<Rightarrow> if s = ''invalid_date'' then [''INVALID_FORMAT'']
                  else (case td s of Some d \<Rightarrow> [] | None \<Rightarrow> [''PARSE_ERROR''])) @
     (case revenue r of None \<Rightarrow> [] | Some v \<Rightarrow> if v < 0 then [''NEGATIVE_REVENUE''] else []) @
     (case quantity r of None \<Rightarrow> [] | Some q \<Rightarrow> if q \<le> 0 then [''INVALID_QUANTITY''] else []) @
     (case region r of None \<Rightarrow> []
      | Some g \<Rightarrow> if g \<notin> set valid_regions then [''INVALID_REGION''] else [])"
  unfolding rule_failures_def date_failures_def map_append
  by (simp only: if_distrib[of "map control_type"] option.case_distrib[of "map control_type"]
        list.map failure_sel cong: if_cong option.case_cong)

text \<open>
  Claim C6. Rule evaluation of one record is exhaustive: whatever the other rules
  find, each violation name is reported exactly when its own condition holds on the
  record (identifier presence, region presence, the three date failures, non-negative
  revenue, positive quantity, region membership), the earlier log is kept, and the record
  is accepted if and only if no violation is reported.
\<close>
theorem rule_evaluation_exhaustive:
  "take (length res) (fst (validate_record td res idx r)) = res \<and>
   (''MISSING_ORDER_ID'' \<in> set (violations td res idx r)) =
      (order_id r = None \<or> order_id r = Some '''') \<and>
   (''MISSING_REGION'' \<in> set (violations td res idx r)) =
      (region r = None \<or> region r = Some '''') \<and>
   (''MISSING_DATE'' \<in> set (violations td res idx r)) = (order_date r = None) \<and>
   (''INVALID_FORMAT'' \<in> set (violations td res idx r)) =
      (order_date r = Some ''invalid_date'') \<and>
   (''PARSE_ERROR'' \<in> set (violations td res idx r)) =
      (\<exists>s. order_date r = Some s \<and> s \<noteq> ''invalid_date'' \<and> td s = None) \<and>
   (''NEGATIVE_REVENUE'' \<in> set (violations td res idx r)) =
      (\<exists>v. revenue r = Some v \<and> v < 0) \<and>
   (''INVALID_QUANTITY'' \<in> set (violations td res idx r)) =
      (\<exists>q. quantity r = Some q \<and> q \<le> 0) \<and>
   (''INVALID_REGION'' \<in> set (violations td res idx r)) =
      (\<exists>g. region r = Some g \<and> g \<notin> set valid_regions) \<and>
   snd (validate_record td res idx r) = (violations td res idx r = [])"
proof -
  note mems = violations_eq rule_names set_append Un_iff mem_if_single mem_case_single
    mem_date_names
  have p0: "take (length res) (fst (validate_record td res idx r)) = res"
    by (simp add: validate_record_eq)
  have p1: "(''MISSING_ORDER_ID'' \<in> set (violations td res idx r)) =
      (order_id r = None \<or> order_id r = Some '''')"
    unfolding mems by simp
  have p2: "(''MISSING_REGION'' \<in> set (violations td res idx r)) =
      (region r = None \<or> region r = Some '''')"
    unfolding mems by simp
  have p3: "(''MISSING_DATE'' \<in> set (violations td res idx r)) = (order_date r = None)"
    unfolding mems by simp
  have p4: "(''INVALID_FORMAT'' \<in> set (violations td res idx r)) =
      (order_date r = Some ''invalid_date'')"
    unfolding mems by simp
  have p5: "(''PARSE_ERROR'' \<in> set (violations td res idx r)) =
      (\<exists>s. order_date r = Some s \<and> s \<noteq> ''invalid_date'' \<and> td s = None)"
    unfolding mems by simp
  have p6: "(''NEGATIVE_REVENUE'' \<in> set (violations td res idx r)) =
      (\<exists>v. revenue r = Some v \<and> v < 0)"
    unfolding mems by simp
  have p7: "(''INVALID_QUANTITY'' \<in> set (violations td res idx r)) =
      (\<exists>q. quantity r = Some q \<and> q \<le> 0)"
    unfolding mems by simp
  have p8: "(''INVALID_REGION'' \<in> set (violations td res idx r)) =
      (\<exists>g. region r = Some g \<and> g \<notin> set valid_regions)"
    unfolding mems by simp
  have p9: "snd (validate_record td res idx r) = (violations td res idx r = [])"
    by (simp add: validate_record_eq violations_eq)
  show ?thesis
    using p0 p1 p2 p3 p4 p5 p6 p7 p8 p9 by (intro conjI)
qed

theorem rule_evaluation_exhaustive_witness:
  "''NEGATIVE_REVENUE'' \<in> set (violations sample_to_datetime [] 7 (sample_row ''A1'' ''Mars'' 2 (- 5))) \<and>
   ''INVALID_REGION'' \<in> set (violations sample_to_datetime [] 7 (sample_row ''A1'' ''Mars'' 2 (- 5))) \<and>
   \<not> snd (validate_record sample_to_datetime [] 7 (sample_row ''A1'' ''Mars'' 2 (- 5)))"
  using rule_evaluation_exhaustive [of "[]" sample_to_datetime 7 "sample_row ''A1'' ''Mars'' 2 (- 5)"]
  by (auto simp: sample_row_def valid_regions_def)

lemma length_if_single: "length (if c then [x] else []) = (if c then 1 else 0)"
  by simp

lemma length_case_single:
  "length (case opt of None \<Rightarrow> [] | Some v \<Rightarrow> if P v then [f v] else []) =
     (if (case opt of None \<Rightarrow> False | Some v \<Rightarrow> P v) then 1 else 0)"
  by (cases opt) auto

lemma length_date_failures:
  "length (date_failures td idx dv) =
     (if (case dv of None \<Rightarrow> True | Some s \<Rightarrow> s = ''invalid_date'' \<or> td s = None) then 1 else 0)"
  by (cases dv) (auto simp: date_failures_def split: option.splits)

lemma length_rule_failures: "length (rule_failures td idx r) = violation_count td r"
  unfolding rule_failures_def violation_count_def length_append length_if_single
    length_case_single length_date_failures
  by (simp only: add.assoc)

lemma filter_passed_rule_failures:
  "filter (\<lambda>v. status v = ''PASSED'') (rule_failures td idx r) = []"
  by (auto simp: filter_empty_conv dest: rule_failures_failed)

lemma filter_passed_entries:
  "filter (\<lambda>v. status v = ''PASSED'') (record_entries td idx r) =
     (if accepted td (idx, r) then [passed idx] else [])"
  by (simp add: record_entries_def accepted_def filter_passed_rule_failures)

lemma filter_failed_entries:
  "filter (\<lambda>v. status v = ''FAILED'') (record_entries td idx r) = rule_failures td idx r"
  by (simp add: record_entries_def filter_failed_rule_failures)

lemma record_entries_status:
  "v \<in> set (record_entries td idx r) \<Longrightarrow>
     record_id v = idx \<and> (status v = ''PASSED'' \<or> status v = ''FAILED'')"
  by (auto simp: record_entries_def dest: rule_failures_failed split: if_splits)

lemma passed_ids:
  "map record_id (concat (map (\<lambda>(idx, r). if accepted td (idx, r) then [passed idx] else []) df)) =
     map fst (filter (accepted td) df)"
  by (induction df) auto

lemma length_failed_all:
  "length (concat (map (\<lambda>(idx, r). rule_failures td idx r) df)) =
     sum_list (map (\<lambda>(idx, r). violation_count td r) df)"
  by (induction df) (auto simp: length_rule_failures)

lemma filter_concat_entries:
  "filter P (concat (map (\<lambda>(idx, r). record_entries td idx r) df)) =
     concat (map (\<lambda>(idx, r). filter P (record_entries td idx r)) df)"
  by (induction df) auto

lemma entries_of_other:
  "idx \<notin> fst ` set df \<Longrightarrow>
     entries_of idx st (concat (map (\<lambda>(i, r). record_entries td i r) df)) = []"
  by (induction df) (auto simp: entries_of_def filter_empty_conv dest: record_entries_status)

lemma entries_of_own:
  "entries_of idx st (record_entries td idx r) =
     filter (\<lambda>v. status v = st) (record_entries td idx r)"
  unfolding entries_of_def
  by (rule filter_cong) (auto dest: record_entries_status)

lemma entries_of_append: "entries_of idx st (xs @ ys) = entries_of idx st xs @ entries_of idx st ys"
  by (simp add: entries_of_def)

lemma entries_of_member:
  "distinct (map fst df) \<Longrightarrow> (idx, r) \<in> set df \<Longrightarrow>
     entries_of idx st (concat (map (\<lambda>(i, r). record_entries td i r) df)) =
       filter (\<lambda>v. status v = st) (record_entries td idx r)"
proof (induction df)
  case Nil
  then show ?case by simp
next
  case (Cons x df)
  obtain i q where x: "x = (i, q)" by (cases x)
  show ?case
  proof (cases "(idx, r) = x")
    case True
    then have "idx \<notin> fst ` set df" using Cons.prems(1) x by auto
    then show ?thesis
      using True x by (simp add: entries_of_append entries_of_other entries_of_own)
  next
    case False
    then have mem: "(idx, r) \<in> set df" using Cons.prems(2) by simp
    then have "i \<noteq> idx" using Cons.prems(1) x by (auto simp: image_iff)
    then have "entries_of idx st (record_entries td i q) = []"
      by (auto simp: entries_of_def filter_empty_conv dest: record_entries_status)
    then show ?thesis
      using Cons.IH[OF _ mem] Cons.prems(1) x by (simp add: entries_of_append)
  qed
qed

lemma length_by_status:
  "\<forall>v \<in> set xs. status v = ''PASSED'' \<or> status v = ''FAILED'' \<Longrightarrow>
     length xs = length (filter (\<lambda>v. status v = ''PASSED'') xs) +
       length (filter (\<lambda>v. status v = ''FAILED'') xs)"
  by (induction xs) auto

text \<open>
  Claim C10. The record-validation pass appends to the log one PASSED entry for each
  accepted record and one FAILED entry for each violated rule, and nothing else: the
  PASSED entries are those of the accepted records in order, the FAILED entries number
  the violations of the batch, and the new entries number the accepted records plus the
  violations. With distinct index labels a record has as many FAILED entries as violated
  rules, a PASSED entry exactly when it is accepted, and it is accepted exactly when it
  violates no rule.
\<close>
theorem validation_log_entry_count:
  "case validate_records td res df of
     (results, valid_df, invalid_df) \<Rightarrow>
       take (length res) results = res \<and>
       (\<forall>v \<in> set (drop (length res) results). status v = ''PASSED'' \<or> status v = ''FAILED'') \<and>
       map record_id (filter (\<lambda>v. status v = ''PASSED'') (drop (length res) results)) =
         map fst valid_df \<and>
       length (filter (\<lambda>v. status v = ''FAILED'') (drop (length res) results)) =
         sum_list (map (\<lambda>(idx, r). violation_count td r) df) \<and>
       length (drop (length res) results) =
         length valid_df + sum_list (map (\<lambda>(idx, r). violation_count td r) df) \<and>
       (distinct (map fst df) \<longrightarrow>
          (\<forall>(idx, r) \<in> set df.
             length (entries_of idx ''FAILED'' (drop (length res) results)) = violation_count td r \<and>
             length (entries_of idx ''PASSED'' (drop (length res) results)) =
               (if (idx, r) \<in> set valid_df then 1 else 0) \<and>
             ((idx, r) \<in> set valid_df) = (violation_count td r = 0) \<and>
             ((idx, r) \<in> set invalid_df) = (0 < violation_count td r)))"
proof -
  let ?new = "concat (map (\<lambda>(idx, r). record_entries td idx r) df)"
  have st: "\<forall>v \<in> set ?new. status v = ''PASSED'' \<or> status v = ''FAILED''"
    by (auto dest: record_entries_status)
  have ps: "map record_id (filter (\<lambda>v. status v = ''PASSED'') ?new) = map fst (filter (accepted td) df)"
    by (simp add: filter_concat_entries filter_passed_entries passed_ids)
  have fl: "length (filter (\<lambda>v. status v = ''FAILED'') ?new) =
      sum_list (map (\<lambda>(idx, r). violation_count td r) df)"
    by (simp add: filter_concat_entries filter_failed_entries length_failed_all)
  have ln: "length ?new = length (filter (\<lambda>v. status v = ''PASSED'') ?new) +
      length (filter (\<lambda>v. status v = ''FAILED'') ?new)"
    using st by (rule length_by_status)
  have tot: "length ?new = length (filter (accepted td) df) +
      sum_list (map (\<lambda>(idx, r). violation_count td r) df)"
    using ln fl arg_cong[OF ps, of length] by simp
  have per: "length (entries_of idx ''FAILED'' ?new) = violation_count td r \<and>
       length (entries_of idx ''PASSED'' ?new) =
         (if (idx, r) \<in> set (filter (accepted td) df) then 1 else 0) \<and>
       ((idx, r) \<in> set (filter (accepted td) df)) = (violation_count td r = 0) \<and>
       ((idx, r) \<in> set (filter (\<lambda>x. \<not> accepted td x) df)) = (0 < violation_count td r)"
    if d: "distinct (map fst df)" and m: "(idx, r) \<in> set df" for idx r
  proof -
    have acc: "accepted td (idx, r) = (violation_count td r = 0)"
      unfolding length_rule_failures[of td idx r, symmetric] by (simp add: accepted_def)
    show ?thesis
      using m acc
      by (simp add: entries_of_member[OF d m] filter_failed_entries filter_passed_entries
            length_rule_failures)
  qed
  have per': "distinct (map fst df) \<longrightarrow>
      (\<forall>(idx, r) \<in> set df.
         length (entries_of idx ''FAILED'' ?new) = violation_count td r \<and>
         length (entries_of idx ''PASSED'' ?new) =
           (if (idx, r) \<in> set (filter (accepted td) df) then 1 else 0) \<and>
         ((idx, r) \<in> set (filter (accepted td) df)) = (violation_count td r = 0) \<and>
         ((idx, r) \<in> set (filter (\<lambda>x. \<not> accepted td x) df)) = (0 < violation_count td r))"
    using per by blast
  have tk: "take (length res) (res @ ?new) = res" by simp
  have dr: "drop (length res) (res @ ?new) = ?new" by simp
  show ?thesis
    unfolding validate_records_eq prod.case tk dr
    using st ps fl tot per' by (intro conjI refl)
qed

theorem validation_log_entry_count_witness:
  "distinct (map fst sample_batch) \<and>
   length (entries_of 2 ''FAILED''
     (drop (length ([] :: validation_result list))
        (fst (validate_records sample_to_datetime [] sample_batch)))) = 1 \<and>
   length (entries_of 0 ''PASSED''
     (drop (length ([] :: validation_result list))
        (fst (validate_records sample_to_datetime [] sample_batch)))) = 1"
proof -
  obtain results valid_df invalid_df
    where e: "validate_records sample_to_datetime [] sample_batch = (results, valid_df, invalid_df)"
    by (cases "validate_records sample_to_datetime [] sample_batch")
  have d: "distinct (map fst sample_batch)"
    by (simp add: sample_batch_def)
  have c0: "violation_count sample_to_datetime (sample_row ''A'' ''North'' 5 100) = 0"
    by (simp add: violation_count_def sample_row_def sample_to_datetime_def valid_regions_def)
  have c2: "violation_count sample_to_datetime (sample_row [] ''South'' 2 20) = 1"
    by (simp add: violation_count_def sample_row_def sample_to_datetime_def valid_regions_def)
  from validation_log_entry_count [where td = sample_to_datetime and res = "[]" and df = sample_batch] d
  show ?thesis
    unfolding e prod.case fst_conv
    by (simp add: sample_batch_def c0 c2)
qed

lemma key_of_eq: "(\<lambda>(idx, r). order_id r) = key_of"
  by (simp add: key_of_def)

lemma length_duplicated_first: "length (duplicated_first seen ks) = length ks"
  by (induction ks arbitrary: seen) auto

lemma duplicated_first_nth:
  "i < length ks \<Longrightarrow>
     duplicated_first seen ks ! i = (ks ! i \<in> set seen \<union> set (take i ks))"
proof (induction ks arbitrary: seen i)
  case Nil
  then show ?case by simp
next
  case (Cons k ks)
  show ?case
  proof (cases i)
    case 0
    then show ?thesis by simp
  next
    case (Suc j)
    then have "j < length ks" using Cons.prems by simp
    from Cons.IH[OF this, of "k # seen"] Suc show ?thesis by auto
  qed
qed

lemma select_mask_Nil [simp]: "select_mask [] flags = []"
  by (simp add: select_mask_def)

lemma select_mask_Cons [simp]:
  "select_mask (x # xs) (f # flags) = (if f then x # select_mask xs flags else select_mask xs flags)"
  by (simp add: select_mask_def)

lemma select_mask_snoc:
  "length flags = length xs \<Longrightarrow>
     select_mask (xs @ [x]) (flags @ [f]) = select_mask xs flags @ (if f then [x] else [])"
  by (simp add: select_mask_def)

lemma select_mask_positions:
  "length flags = length xs \<Longrightarrow>
     select_mask xs flags = map (nth xs) (filter (\<lambda>i. flags ! i) [0..<length xs])"
proof (induction xs arbitrary: flags rule: rev_induct)
  case Nil
  then show ?case by simp
next
  case (snoc x xs)
  then obtain fs f where fl: "flags = fs @ [f]" and len: "length fs = length xs"
    by (cases flags rule: rev_cases) auto
  have a: "filter (\<lambda>i. (fs @ [f]) ! i) [0..<length xs] = filter (\<lambda>i. fs ! i) [0..<length xs]"
    by (rule filter_cong) (auto simp: nth_append len)
  have b: "map (nth (xs @ [x])) (filter (\<lambda>i. fs ! i) [0..<length xs]) =
      map (nth xs) (filter (\<lambda>i. fs ! i) [0..<length xs])"
    by (rule map_cong) (auto simp: nth_append)
  have c: "(fs @ [f]) ! length xs = f"
    using len by (simp add: nth_append)
  show ?case
    unfolding fl
    using snoc.IH[OF len] len
    by (simp add: select_mask_snoc a b c)
qed

lemma select_mask_map: "select_mask xs (map g xs) = filter g xs"
  by (induction xs) auto

lemma mset_select_mask:
  "length flags = length xs \<Longrightarrow>
     mset (select_mask xs (map Not flags)) + mset (select_mask xs flags) = mset xs"
proof (induction xs arbitrary: flags)
  case Nil
  then show ?case by simp
next
  case (Cons x xs)
  then obtain f fs where "flags = f # fs" "length fs = length xs"
    by (cases flags) auto
  with Cons.IH[of fs] show ?case by simp
qed

lemma set_select_mask: "set (select_mask xs flags) \<subseteq> set xs"
  unfolding select_mask_def by (auto dest: set_zip_leftD)

lemma foldl_log_duplicates:
  "foldl (\<lambda>results (idx, r).
            log_validation_failure results idx ''DUPLICATE_CHECK'' ''DUPLICATE_ORDER_ID''
              (MsgStr ''Duplicate order ID: '' (order_id r))) res xs =
     res @ map duplicate_entry xs"
  by (induction xs arbitrary: res)
     (auto simp: duplicate_entry_def log_validation_failure_def failure_def)

lemma check_duplicates_eq:
  "check_duplicates res df =
     (res @ map duplicate_entry (filter (\<lambda>x. 1 < count_list (map key_of df) (key_of x)) df),
      drop_duplicates df)"
proof -
  have "select_mask df (duplicated_all (map key_of df)) =
      filter (\<lambda>x. 1 < count_list (map key_of df) (key_of x)) df"
    unfolding duplicated_all_def map_map
    using select_mask_map[of df "\<lambda>x. 1 < count_list (map key_of df) (key_of x)"]
    by (simp add: comp_def)
  then show ?thesis
    by (simp add: check_duplicates_def key_of_eq foldl_log_duplicates)
qed

lemma first_flags_nth:
  "i < length df \<Longrightarrow>
     duplicated_first [] (map key_of df) ! i = (key_of (df ! i) \<in> set (take i (map key_of df)))"
  using duplicated_first_nth[of i "map key_of df" "[]"] by simp

lemma drop_duplicates_positions:
  "drop_duplicates df =
     map (nth df)
       (filter (\<lambda>i. key_of (df ! i) \<notin> set (take i (map key_of df))) [0..<length df])"
proof -
  have "drop_duplicates df =
      map (nth df) (filter (\<lambda>i. map Not (duplicated_first [] (map key_of df)) ! i) [0..<length df])"
    unfolding drop_duplicates_def key_of_eq
    by (rule select_mask_positions) (simp add: length_duplicated_first)
  also have "filter (\<lambda>i. map Not (duplicated_first [] (map key_of df)) ! i) [0..<length df] =
      filter (\<lambda>i. key_of (df ! i) \<notin> set (take i (map key_of df))) [0..<length df]"
    by (rule filter_cong) (auto simp: length_duplicated_first first_flags_nth)
  finally show ?thesis .
qed

lemma duplicate_dropped_positions:
  "duplicate_dropped df =
     map (nth df)
       (filter (\<lambda>i. key_of (df ! i) \<in> set (take i (map key_of df))) [0..<length df])"
proof -
  have "duplicate_dropped df =
      map (nth df) (filter (\<lambda>i. duplicated_first [] (map key_of df) ! i) [0..<length df])"
    unfolding duplicate_dropped_def key_of_eq
    by (rule select_mask_positions) (simp add: length_duplicated_first)
  also have "filter (\<lambda>i. duplicated_first [] (map key_of df) ! i) [0..<length df] =
      filter (\<lambda>i. key_of (df ! i) \<in> set (take i (map key_of df))) [0..<length df]"
    by (rule filter_cong) (auto simp: first_flags_nth)
  finally show ?thesis .
qed

text \<open>
  Claim C7. Duplicate resolution is first-wins in frame order: the frame returned holds
  exactly the rows whose identifier does not occur earlier, in order; the rows left out
  are those whose identifier occurs earlier; and every row whose identifier occurs more
  than once, the kept first one too, gets a DUPLICATE_ORDER_ID entry in the log.
\<close>
theorem duplicates_first_wins:
  "snd (check_duplicates res df) =
     map (nth df)
       (filter (\<lambda>i. key_of (df ! i) \<notin> set (take i (map key_of df))) [0..<length df]) \<and>
   duplicate_dropped df =
     map (nth df)
       (filter (\<lambda>i. key_of (df ! i) \<in> set (take i (map key_of df))) [0..<length df]) \<and>
   fst (check_duplicates res df) =
     res @ map duplicate_entry (filter (\<lambda>x. 1 < count_list (map key_of df) (key_of x)) df)"
  by (simp add: check_duplicates_eq drop_duplicates_positions[symmetric]
        duplicate_dropped_positions[symmetric])

theorem duplicates_first_wins_witness:
  "snd (check_duplicates [] duplicate_batch) = [duplicate_batch ! 0, duplicate_batch ! 1] \<and>
   duplicate_dropped duplicate_batch = [duplicate_batch ! 2, duplicate_batch ! 3] \<and>
   map record_id (fst (check_duplicates [] duplicate_batch)) = [0, 2, 3]"
proof -
  have k: "filter (\<lambda>i. key_of (duplicate_batch ! i) \<notin> set (take i (map key_of duplicate_batch)))
      [0..<length duplicate_batch] = [0, 1]"
    by code_simp
  have d: "filter (\<lambda>i. key_of (duplicate_batch ! i) \<in> set (take i (map key_of duplicate_batch)))
      [0..<length duplicate_batch] = [2, 3]"
    by code_simp
  have f: "map record_id (map duplicate_entry
      (filter (\<lambda>x. 1 < count_list (map key_of duplicate_batch) (key_of x)) duplicate_batch)) =
      [0, 2, 3]"
    by code_simp
  note w = duplicates_first_wins [where res = "[]" and df = duplicate_batch, unfolded k d]
  show ?thesis
    using w f by simp
qed

lemma validation_stage_eq:
  "validation_stage td df =
     (drop_duplicates (filter (accepted td) df), duplicate_dropped (filter (accepted td) df),
      filter (\<lambda>x. \<not> accepted td x) df)"
  by (simp add: validation_stage_def validate_records_eq check_duplicates_eq)

lemma mset_dedup_split:
  "mset (drop_duplicates df) + mset (duplicate_dropped df) = mset df"
  unfolding drop_duplicates_def duplicate_dropped_def
  by (rule mset_select_mask) (simp add: length_duplicated_first)

lemma mset_validation_stage:
  "mset (drop_duplicates (filter (accepted td) df)) +
     mset (duplicate_dropped (filter (accepted td) df)) +
     mset (filter (\<lambda>x. \<not> accepted td x) df) = mset df"
  by (simp add: mset_dedup_split)

text \<open>
  Claim C2. After validation and deduplication every record of the batch is in exactly
  one of the three populations kept, duplicate-dropped and rejected: together they are
  the batch as a multiset, their sizes sum to the size of the batch, and with distinct
  index labels no label occurs twice among them.
\<close>
theorem validation_partition:
  "case validation_stage td df of
     (kept, dropped, rejected) \<Rightarrow>
       mset kept + mset dropped + mset rejected = mset df \<and>
       length kept + length dropped + length rejected = length df \<and>
       (distinct (map fst df) \<longrightarrow>
          distinct (map fst (kept @ dropped @ rejected)) \<and>
          set (kept @ dropped @ rejected) = set df)"
proof -
  let ?k = "drop_duplicates (filter (accepted td) df)"
  let ?d = "duplicate_dropped (filter (accepted td) df)"
  let ?r = "filter (\<lambda>x. \<not> accepted td x) df"
  have m: "mset ?k + mset ?d + mset ?r = mset df"
    by (rule mset_validation_stage)
  have m': "mset (?k @ ?d @ ?r) = mset df"
    using m by (simp add: ac_simps)
  have l: "length ?k + length ?d + length ?r = length df"
    using mset_eq_length[OF m'] by simp
  have s: "set (?k @ ?d @ ?r) = set df"
    using m' by (rule mset_eq_setD)
  have "mset (map fst (?k @ ?d @ ?r)) = mset (map fst df)"
    using m' by (metis mset_map)
  then have dd: "distinct (map fst df) \<longrightarrow> distinct (map fst (?k @ ?d @ ?r))"
    by (metis mset_eq_imp_distinct_iff)
  show ?thesis
    unfolding validation_stage_eq prod.case
    using m l s dd by blast
qed

theorem validation_partition_witness:
  "distinct (map fst sample_batch) \<and>
   length (fst (validation_stage sample_to_datetime sample_batch)) +
     length (fst (snd (validation_stage sample_to_datetime sample_batch))) +
     length (snd (snd (validation_stage sample_to_datetime sample_batch))) = 3 \<and>
   distinct (map fst
     (fst (validation_stage sample_to_datetime sample_batch) @
      fst (snd (validation_stage sample_to_datetime sample_batch)) @
      snd (snd (validation_stage sample_to_datetime sample_batch))))"
proof -
  obtain kept dropped rejected
    where e: "validation_stage sample_to_datetime sample_batch = (kept, dropped, rejected)"
    by (cases "validation_stage sample_to_datetime sample_batch")
  have d: "distinct (map fst sample_batch)"
    by (simp add: sample_batch_def)
  have n: "length sample_batch = 3"
    by (simp add: sample_batch_def)
  from validation_partition [where td = sample_to_datetime and df = sample_batch] d n
  show ?thesis
    unfolding e prod.case fst_conv snd_conv by simp
qed

lemma if_one_zero: "((if c then 1 else 0) = (0::nat)) = (\<not> c)"
  by simp

lemma accepted_quantity:
  assumes "accepted td (idx, r)"
  shows "\<not> (case quantity r of None \<Rightarrow> False | Some q \<Rightarrow> q \<le> 0)"
proof -
  have "violation_count td r = 0"
    using assms length_rule_failures[of td idx r] by (simp add: accepted_def)
  then show ?thesis
    unfolding violation_count_def add_is_0 if_one_zero by blast
qed

lemma set_drop_duplicates: "set (drop_duplicates df) \<subseteq> set df"
  unfolding drop_duplicates_def by (rule set_select_mask)

lemma revenue_per_unit_cases:
  "revenue_per_unit (transform_row env run_id r d) =
     (case revenue r of
        None \<Rightarrow> NaN
      | Some v \<Rightarrow>
          (case quantity r of
             None \<Rightarrow> NaN
           | Some q \<Rightarrow>
               if q = 0 then (if v = 0 then NaN else if 0 < v then PosInf else NegInf)
               else env_float_round2 env (env_float_divide env v q)))"
  by (simp add: transform_row_def divide_cells_def split: option.splits)

lemma transform_rows:
  assumes "transform_clean_data env run_id clean_df db = (Inr tdf, db')"
  shows "\<exists>dates. tdf = map (\<lambda>(i, idx, r). (idx, transform_row env run_id r (dates i)))
                           (enumerate 0 clean_df)"
proof (cases "clean_df = []")
  case True
  then show ?thesis using assms by (simp add: transform_clean_data_def)
next
  case False
  then show ?thesis
    using assms
    by (auto simp: transform_clean_data_def Let_def split: sum.splits prod.splits)
qed

lemma transform_rows_nth:
  assumes "transform_clean_data env run_id clean_df db = (Inr tdf, db')"
  shows "length tdf = length clean_df \<and>
         (\<forall>i < length clean_df.
            \<exists>d. tdf ! i = (fst (clean_df ! i), transform_row env run_id (snd (clean_df ! i)) d))"
proof -
  obtain dates where
    t: "tdf = map (\<lambda>(i, idx, r). (idx, transform_row env run_id r (dates i))) (enumerate 0 clean_df)"
    using transform_rows[OF assms] by blast
  have "tdf ! i = (fst (clean_df ! i), transform_row env run_id (snd (clean_df ! i)) (dates i))"
    if "i < length clean_df" for i
    using that by (simp add: t nth_enumerate_eq case_prod_unfold)
  then show ?thesis
    by (auto simp: t)
qed

text \<open>
  Claim C3 (amended). Every record that reaches the transformer has a quantity that is
  missing or strictly positive, so the divisor of \<^verbatim>\<open>revenue / quantity\<close> is never zero in
  the transform stage. The transformed frame keeps the rows and their labels, the
  quantity of a transformed row is never zero, and its \<open>revenue_per_unit\<close> is NaN when
  the quantity (or the revenue) is missing and otherwise the rounded quotient by the
  positive quantity: the infinities of a division by zero do not arise.
\<close>
theorem kept_quantity_positive_if_present:
  "case validation_stage td df of
     (kept, dropped, rejected) \<Rightarrow>
       (\<forall>(idx, r) \<in> set kept. quantity r = None \<or> (\<exists>q. quantity r = Some q \<and> 0 < q)) \<and>
       (\<forall>env run_id db tdf db'.
          transform_clean_data env run_id kept db = (Inr tdf, db') \<longrightarrow>
            map fst tdf = map fst kept \<and>
            (\<forall>i < length kept.
               c_quantity (snd (tdf ! i)) = quantity (snd (kept ! i)) \<and>
               c_revenue (snd (tdf ! i)) = revenue (snd (kept ! i)) \<and>
               c_quantity (snd (tdf ! i)) \<noteq> Some 0 \<and>
               revenue_per_unit (snd (tdf ! i)) =
                 (case quantity (snd (kept ! i)) of
                    None \<Rightarrow> NaN
                  | Some q \<Rightarrow>
                      (case revenue (snd (kept ! i)) of
                         None \<Rightarrow> NaN
                       | Some v \<Rightarrow> env_float_round2 env (env_float_divide env v q)))))"
proof -
  let ?k = "drop_duplicates (filter (accepted td) df)"
  have q: "\<not> (case quantity r of None \<Rightarrow> False | Some q \<Rightarrow> q \<le> 0)"
    if "(idx, r) \<in> set ?k" for idx r
  proof -
    have "(idx, r) \<in> set (filter (accepted td) df)"
      using that set_drop_duplicates by blast
    then show ?thesis
      using accepted_quantity[of td idx r] by simp
  qed
  have a: "\<forall>(idx, r) \<in> set ?k. quantity r = None \<or> (\<exists>q. quantity r = Some q \<and> 0 < q)"
    using q by (fastforce split: option.splits)
  have b: "map fst tdf = map fst ?k \<and>
      (\<forall>i < length ?k.
         c_quantity (snd (tdf ! i)) = quantity (snd (?k ! i)) \<and>
         c_revenue (snd (tdf ! i)) = revenue (snd (?k ! i)) \<and>
         c_quantity (snd (tdf ! i)) \<noteq> Some 0 \<and>
         revenue_per_unit (snd (tdf ! i)) =
           (case quantity (snd (?k ! i)) of
              None \<Rightarrow> NaN
            | Some q \<Rightarrow>
                (case revenue (snd (?k ! i)) of
                   None \<Rightarrow> NaN
                 | Some v \<Rightarrow> env_float_round2 env (env_float_divide env v q))))"
    if t: "transform_clean_data env run_id ?k db = (Inr tdf, db')"
    for env run_id db tdf db'
  proof -
    note n = transform_rows_nth[OF t]
    have len: "length tdf = length ?k"
      using n by blast
    have m: "map fst tdf = map fst ?k"
    proof (rule nth_equalityI)
      show "length (map fst tdf) = length (map fst ?k)"
        using len by simp
    next
      fix i assume "i < length (map fst tdf)"
      then have i: "i < length ?k" using len by simp
      then obtain d where "tdf ! i = (fst (?k ! i), transform_row env run_id (snd (?k ! i)) d)"
        using n by blast
      then show "map fst tdf ! i = map fst ?k ! i"
        using i len by simp
    qed
    have r: "c_quantity (snd (tdf ! i)) = quantity (snd (?k ! i)) \<and>
         c_revenue (snd (tdf ! i)) = revenue (snd (?k ! i)) \<and>
         c_quantity (snd (tdf ! i)) \<noteq> Some 0 \<and>
         revenue_per_unit (snd (tdf ! i)) =
           (case quantity (snd (?k ! i)) of
              None \<Rightarrow> NaN
            | Some q \<Rightarrow>
                (case revenue (snd (?k ! i)) of
                   None \<Rightarrow> NaN
                 | Some v \<Rightarrow> env_float_round2 env (env_float_divide env v q)))"
      if i: "i < length ?k" for i
    proof -
      obtain d where c: "tdf ! i = (fst (?k ! i), transform_row env run_id (snd (?k ! i)) d)"
        using n i by blast
      have "(fst (?k ! i), snd (?k ! i)) \<in> set ?k"
        using i by simp
      then have nz: "\<not> (case quantity (snd (?k ! i)) of None \<Rightarrow> False | Some q \<Rightarrow> q \<le> 0)"
        by (rule q)
      have f: "c_quantity (transform_row env run_id (snd (?k ! i)) d) = quantity (snd (?k ! i))"
        "c_revenue (transform_row env run_id (snd (?k ! i)) d) = revenue (snd (?k ! i))"
        by (simp_all add: transform_row_def)
      show ?thesis
        unfolding c snd_conv f revenue_per_unit_cases
        using nz by (auto split: option.splits)
    qed
    show ?thesis
      using m r by blast
  qed
  show ?thesis
    unfolding validation_stage_eq prod.case
    using a b by blast
qed

text \<open>
  Claim C3, as stated, fails: a record without a quantity passes every rule and is
  kept, so the quantity of a record that reaches the transformer need not be present.
\<close>
theorem quantity_present_counterexample:
  "validation_stage sample_to_datetime [(0, no_quantity_row)] = ([(0, no_quantity_row)], [], []) \<and>
   quantity no_quantity_row = None"
  by code_simp

lemma sample_stage:
  "validation_stage sample_to_datetime sample_batch =
     ([(0, sample_row ''A'' ''North'' 5 100)], [(1, sample_row ''A'' ''North'' 3 60)],
      [(2, sample_row [] ''South'' 2 20)])"
  by code_simp

lemma quantity_batch_stage:
  "validation_stage sample_to_datetime quantity_batch = (quantity_batch, [], [])"
  by code_simp

lemma quantity_batch_transform:
  "fst (transform_clean_data sample_env ''run1'' quantity_batch empty_db) =
     Inr [(0, transform_row sample_env ''run1'' no_quantity_row (Some (2024, 1, 15))),
          (1, transform_row sample_env ''run1'' (sample_row ''B'' ''North'' 5 100)
                (Some (2024, 1, 15)))]"
  by code_simp

theorem kept_quantity_positive_if_present_witness:
  "fst (validation_stage sample_to_datetime quantity_batch) = quantity_batch \<and>
   quantity (snd (quantity_batch ! 0)) = None \<and>
   quantity (snd (quantity_batch ! 1)) = Some 5 \<and>
   map (\<lambda>(idx, c). (idx, c_quantity c, revenue_per_unit c))
     (projr (fst (transform_clean_data sample_env ''run1'' quantity_batch empty_db))) =
     [(0, None, NaN), (1, Some 5, Fin 20)]"
proof -
  let ?tdf = "[(0, transform_row sample_env ''run1'' no_quantity_row (Some (2024, 1, 15))),
          (1::nat, transform_row sample_env ''run1'' (sample_row ''B'' ''North'' 5 100)
                (Some (2024, 1, 15)))]"
  note th = kept_quantity_positive_if_present
    [where td = sample_to_datetime and df = quantity_batch, unfolded quantity_batch_stage prod.case]
  have t: "transform_clean_data sample_env ''run1'' quantity_batch empty_db =
      (Inr ?tdf, snd (transform_clean_data sample_env ''run1'' quantity_batch empty_db))"
    using quantity_batch_transform by (metis prod.collapse)
  note b0 = conjunct2 [OF th, rule_format, OF t]
  note b1 = conjunct2 [OF b0, rule_format, of 0]
  note b2 = conjunct2 [OF b0, rule_format, of 1]
  have q: "quantity (snd (quantity_batch ! 0)) = None" "quantity (snd (quantity_batch ! 1)) = Some 5"
    "revenue (snd (quantity_batch ! 1)) = Some 100"
    by (simp_all add: quantity_batch_def no_quantity_row_def sample_row_def)
  have l: "length quantity_batch = 2"
    by (simp add: quantity_batch_def)
  have e: "env_float_round2 sample_env (env_float_divide sample_env 100 5) = Fin 20"
    by (simp add: sample_env_def)
  from b1 have c0: "c_quantity (snd (?tdf ! 0)) = None \<and> revenue_per_unit (snd (?tdf ! 0)) = NaN"
    unfolding q l by simp
  from b2 have c1: "c_quantity (snd (?tdf ! 1)) = Some 5 \<and> revenue_per_unit (snd (?tdf ! 1)) = Fin 20"
    unfolding q l by (simp add: e)
  show ?thesis
    using c0 c1 q by (simp add: quantity_batch_stage quantity_batch_transform)
qed

text \<open>
  Claim C1, as stated, fails: a record with quantity zero, a non-negative revenue and a
  missing date is categorized DATA_FORMAT_ERROR, not BUSINESS_RULE_VIOLATION, because the
  quantity is tested after the date.
\<close>
theorem categorizer_priority_counterexample:
  "categorize_error zero_quantity_no_date_row = ''DATA_FORMAT_ERROR'' \<and>
   quantity zero_quantity_no_date_row = Some 0 \<and>
   order_date zero_quantity_no_date_row = None \<and>
   violations sample_to_datetime [] 0 zero_quantity_no_date_row =
     [''MISSING_DATE'', ''INVALID_QUANTITY''] \<and>
   ''DATA_FORMAT_ERROR'' \<noteq> ''BUSINESS_RULE_VIOLATION''"
  by code_simp

text \<open>
  The categorizer does not parse the date: a record whose only violation is a date that
  the validator reports as PARSE_ERROR falls through every test, to DATA_QUALITY_ISSUE
  with the details \<^verbatim>\<open>Unknown error\<close>.
\<close>

lemma unparseable_date_category:
  "sample_to_datetime ''31/31/2024'' = None \<and>
   violations sample_to_datetime [] 0 unparseable_date_row = [''PARSE_ERROR''] \<and>
   categorize_error unparseable_date_row = ''DATA_QUALITY_ISSUE'' \<and>
   generate_error_details unparseable_date_row = [Msg ''Unknown error'']"
  by code_simp

text \<open>
  Claim C1 (amended). The categorizer returns exactly one of the four categories, the
  one of the first test that holds in this order: the identifier is missing or empty;
  the revenue is negative; the date is missing or is the text \<^verbatim>\<open>invalid_date\<close>; the
  quantity is not positive; and DATA_QUALITY_ISSUE for a record that none of these holds
  for and whose date parses.
\<close>
theorem categorizer_priority:
  "(order_id r = None \<or> order_id r = Some '''' \<longrightarrow>
      categorize_error r = ''MISSING_REQUIRED_FIELD'') \<and>
   (\<not> (order_id r = None \<or> order_id r = Some '''') \<and> (\<exists>v. revenue r = Some v \<and> v < 0) \<longrightarrow>
      categorize_error r = ''BUSINESS_RULE_VIOLATION'') \<and>
   (\<not> (order_id r = None \<or> order_id r = Some '''') \<and> \<not> (\<exists>v. revenue r = Some v \<and> v < 0) \<and>
    (order_date r = None \<or> order_date r = Some ''invalid_date'') \<longrightarrow>
      categorize_error r = ''DATA_FORMAT_ERROR'') \<and>
   (\<not> (order_id r = None \<or> order_id r = Some '''') \<and> \<not> (\<exists>v. revenue r = Some v \<and> v < 0) \<and>
    \<not> (order_date r = None \<or> order_date r = Some ''invalid_date'') \<and>
    (\<exists>q. quantity r = Some q \<and> q \<le> 0) \<longrightarrow>
      categorize_error r = ''BUSINESS_RULE_VIOLATION'') \<and>
   (\<not> (order_id r = None \<or> order_id r = Some '''') \<and> \<not> (\<exists>v. revenue r = Some v \<and> v < 0) \<and>
    (\<exists>s d. order_date r = Some s \<and> s \<noteq> ''invalid_date'' \<and> td s = Some d) \<and>
    \<not> (\<exists>q. quantity r = Some q \<and> q \<le> 0) \<longrightarrow>
      categorize_error r = ''DATA_QUALITY_ISSUE'') \<and>
   categorize_error r \<in> {''MISSING_REQUIRED_FIELD'', ''BUSINESS_RULE_VIOLATION'',
      ''DATA_FORMAT_ERROR'', ''DATA_QUALITY_ISSUE''}"
  unfolding categorize_error_def
  by (cases "revenue r"; cases "quantity r") auto

theorem categorizer_priority_witness:
  "categorize_error (sample_row [] ''South'' 2 (- 20)) = ''MISSING_REQUIRED_FIELD'' \<and>
   categorize_error (sample_row ''A'' ''South'' 2 (- 20)) = ''BUSINESS_RULE_VIOLATION'' \<and>
   categorize_error zero_quantity_no_date_row = ''DATA_FORMAT_ERROR'' \<and>
   categorize_error (sample_row ''A'' ''South'' 0 20) = ''BUSINESS_RULE_VIOLATION'' \<and>
   categorize_error (sample_row ''A'' ''Mars'' 2 20) = ''DATA_QUALITY_ISSUE''"
proof -
  have a: "categorize_error (sample_row [] ''South'' 2 (- 20)) = ''MISSING_REQUIRED_FIELD''"
    using categorizer_priority [where r = "sample_row [] ''South'' 2 (- 20)"]
    by (simp add: sample_row_def)
  have b: "categorize_error (sample_row ''A'' ''South'' 2 (- 20)) = ''BUSINESS_RULE_VIOLATION''"
    using categorizer_priority [where r = "sample_row ''A'' ''South'' 2 (- 20)"]
    by (simp add: sample_row_def)
  have c: "categorize_error zero_quantity_no_date_row = ''DATA_FORMAT_ERROR''"
    using categorizer_priority [where r = zero_quantity_no_date_row]
    by (simp add: zero_quantity_no_date_row_def)
  have d: "categorize_error (sample_row ''A'' ''South'' 0 20) = ''BUSINESS_RULE_VIOLATION''"
    using categorizer_priority [where r = "sample_row ''A'' ''South'' 0 20"]
    by (simp add: sample_row_def)
  have e: "categorize_error (sample_row ''A'' ''Mars'' 2 20) = ''DATA_QUALITY_ISSUE''"
    using categorizer_priority [where r = "sample_row ''A'' ''Mars'' 2 20"
        and td = sample_to_datetime]
    by (simp add: sample_row_def sample_to_datetime_def)
  show ?thesis
    using a b c d e by simp
qed

lemma analytics_summaries_run:
  "s \<in> set (analytics_summaries env run_id df) \<Longrightarrow> s_run_id s = run_id"
  by (auto simp: analytics_summaries_def)

lemma basic_summary_run [simp]:
  "s_run_id (basic_summary env run_id i g p sel) = run_id"
  by (simp add: basic_summary_def)

lemma basic_summaries_run:
  "basic_summaries env run_id clean_df = Inr ss \<Longrightarrow> s \<in> set ss \<Longrightarrow> s_run_id s = run_id"
  by (auto simp: basic_summaries_def Let_def split: sum.splits)

lemma basic_summaries_nonempty:
  "basic_summaries env run_id clean_df = Inr ss \<Longrightarrow> ss \<noteq> []"
  by (auto simp: basic_summaries_def Let_def split: sum.splits)

lemma filter_run_all:
  "(\<And>s. s \<in> set ss \<Longrightarrow> s_run_id s = run_id) \<Longrightarrow>
     filter (\<lambda>s. s_run_id s \<noteq> run_id) ss = [] \<and> filter (\<lambda>s. s_run_id s = run_id) ss = ss"
  by (induction ss) auto

lemma generate_analytics_summaries_success:
  "generate_analytics_summaries env run_id df db = (Inr u, db1) \<longleftrightarrow>
     env_fails env DeleteSummaries = None \<and> env_fails env InsertSummaries = None \<and>
     db1 = db\<lparr>analytics_summary :=
                 filter (\<lambda>s. s_run_id s \<noteq> run_id) (analytics_summary db) @
                   analytics_summaries env run_id (map snd df)\<rparr>"
  by (auto simp: generate_analytics_summaries_def delete_summaries_def insert_summaries_def
        Let_def split: option.splits)

lemma generate_basic_analytics_success:
  "generate_basic_analytics env run_id raw_df clean_df invalid_df db = (Inr u, db1) \<longleftrightarrow>
     env_fails env DeleteBasicSummaries = None \<and> env_fails env InsertBasicSummaries = None \<and>
     (\<exists>ss. basic_summaries env run_id clean_df = Inr ss \<and>
        db1 = db\<lparr>analytics_summary :=
                    filter (\<lambda>s. s_run_id s \<noteq> run_id) (analytics_summary db) @ ss\<rparr>)"
  by (auto simp: generate_basic_analytics_def delete_summaries_def insert_summaries_def
        basic_summaries_nonempty split: option.splits sum.splits)

lemma validate_schema_original: "validate_schema [] original_columns = ([], True)"
  by (simp add: validate_schema_def original_columns_def required_columns_def)

lemma ingest_data_success:
  assumes "ingest_data env run_id db = (Inr raw_df, db1)"
  shows "(\<exists>df. env_read_csv env = Inr df \<and> raw_df = rows df) \<and>
         exceptions db1 = exceptions db \<and> analytics_summary db1 = analytics_summary db"
  using assms
  by (auto simp: ingest_data_def Let_def split: sum.splits option.splits if_splits)

lemma validate_data_success:
  assumes "validate_data env run_id df db = (Inr (clean_df, invalid_df, results), db2)"
  shows "clean_df = fst (validation_stage (env_to_datetime env) df) \<and>
         invalid_df = snd (snd (validation_stage (env_to_datetime env) df)) \<and>
         exceptions db2 = exceptions db \<and> analytics_summary db2 = analytics_summary db"
  using assms
  unfolding validate_data_def validate_schema_original prod.case validation_stage_def
  by (auto split: prod.splits if_splits option.splits)

lemma handle_exceptions_success:
  assumes "handle_exceptions env run_id invalid_df stage_name db = (Inr u, db3)"
  shows "exceptions db3 = exceptions db @ exception_data run_id invalid_df stage_name \<and>
         analytics_summary db3 = analytics_summary db"
  using assms
  by (auto simp: handle_exceptions_def Let_def exception_data_def split: if_splits option.splits)

lemma save_clean_data_frame:
  assumes "save_clean_data env run_id tdf db = (r, db1)"
  shows "exceptions db1 = exceptions db \<and> analytics_summary db1 = analytics_summary db"
  using assms
  by (auto simp: save_clean_data_def Let_def split: option.splits)

lemma generate_analytics_summaries_frame:
  assumes "generate_analytics_summaries env run_id tdf db = (r, db1)"
  shows "exceptions db1 = exceptions db \<and> other_rows run_id db1 = other_rows run_id db"
  using assms analytics_summaries_run[of _ env run_id "map snd tdf"]
  by (auto simp: generate_analytics_summaries_def delete_summaries_def insert_summaries_def
        other_rows_def Let_def filter_run_all split: option.splits)

lemma transform_clean_data_frame:
  assumes "transform_clean_data env run_id clean_df db = (r, db4)"
  shows "exceptions db4 = exceptions db \<and> other_rows run_id db4 = other_rows run_id db"
proof (cases "clean_df = []")
  case True
  then show ?thesis using assms by (simp add: transform_clean_data_def)
next
  case False
  show ?thesis
    using assms False
    unfolding transform_clean_data_def Let_def
    by (auto split: sum.splits prod.splits
          dest!: save_clean_data_frame generate_analytics_summaries_frame
          simp: other_rows_def)
qed

lemma pipeline_steps_success:
  assumes r: "env_read_csv env = Inr df"
    and p: "pipeline_steps env run_id db = (Inr res, db')"
  shows "\<exists>ss. basic_summaries env run_id (fst (validation_stage (env_to_datetime env) (rows df))) = Inr ss \<and>
           run_rows run_id db' = ss \<and> other_rows run_id db' = other_rows run_id db \<and>
           exceptions db' = exceptions db @
             exception_data run_id (snd (snd (validation_stage (env_to_datetime env) (rows df))))
               ''VALIDATION''"
proof -
  let ?vs = "validation_stage (env_to_datetime env) (rows df)"
  from p obtain raw_df db1 clean_df invalid_df results db2 u db3 final_df db4 u'
    where i: "ingest_data env run_id db = (Inr raw_df, db1)"
      and v: "validate_data env run_id raw_df db1 = (Inr (clean_df, invalid_df, results), db2)"
      and h: "handle_exceptions env run_id invalid_df ''VALIDATION'' db2 = (Inr u, db3)"
      and t: "transform_clean_data env run_id clean_df db3 = (Inr final_df, db4)"
      and b: "generate_basic_analytics env run_id raw_df clean_df invalid_df db4 = (Inr u', db')"
    unfolding pipeline_steps_def
    by (auto split: prod.splits sum.splits)
  have raw: "raw_df = rows df"
    using ingest_data_success[OF i] r by auto
  note i' = ingest_data_success[OF i]
  note v' = validate_data_success[OF v, unfolded raw]
  note h' = handle_exceptions_success[OF h]
  note t' = transform_clean_data_frame[OF t]
  from b obtain ss where ss: "basic_summaries env run_id clean_df = Inr ss"
    and d: "db' = db4\<lparr>analytics_summary :=
                    filter (\<lambda>s. s_run_id s \<noteq> run_id) (analytics_summary db4) @ ss\<rparr>"
    unfolding generate_basic_analytics_success by blast
  note f = filter_run_all[of ss run_id, OF basic_summaries_run[OF ss]]
  have rr: "run_rows run_id db' = ss"
    by (simp add: run_rows_def d f)
  have o4: "other_rows run_id db' = other_rows run_id db4"
    by (simp add: other_rows_def d f)
  have o: "other_rows run_id db' = other_rows run_id db"
    using o4 t' h' v' i' by (simp add: other_rows_def)
  have e: "exceptions db' = exceptions db @ exception_data run_id invalid_df ''VALIDATION''"
    using t' h' v' i' by (simp add: d)
  show ?thesis
    using ss rr o e v' by auto
qed








lemma sum_revenue_clock [simp]:
  "sum_revenue (env\<lparr>env_now := clock\<rparr>) cells = sum_revenue env cells"
  by (simp add: sum_revenue_def Let_def)

lemma groupby_clock [simp]:
  "groupby (env\<lparr>env_now := clock\<rparr>) key df = groupby env key df"
  by (simp add: groupby_def)

lemma summary_groups_clock [simp]:
  "summary_groups (env\<lparr>env_now := clock\<rparr>) df = summary_groups env df"
  by (simp add: summary_groups_def)

lemma analytics_summaries_columns:
  assumes "\<forall>p. fst (clock p) = fst (env_now env p)"
  shows "map summary_columns (analytics_summaries (env\<lparr>env_now := clock\<rparr>) run_id df) =
         map summary_columns (analytics_summaries env run_id df)"
  using assms
  by (simp add: analytics_summaries_def summary_columns_def case_prod_unfold
        split: option.splits)

lemma basic_summaries_columns:
  assumes "\<forall>p. fst (clock p) = fst (env_now env p)"
    and "basic_summaries env run_id clean_df = Inr ss"
    and "basic_summaries (env\<lparr>env_now := clock\<rparr>) run_id clean_df = Inr ss'"
  shows "map summary_columns ss' = map summary_columns ss"
  using assms
  by (auto simp: basic_summaries_def basic_summary_def summary_columns_def Let_def
        case_prod_unfold split: sum.splits if_splits)

text \<open>
  Claim C9. Both aggregation steps replace the summaries of their run: after a run
  that succeeds, the summaries of the run are exactly the rows generated, once each, and
  those of other runs are untouched; running the step again on the result changes
  nothing; a run that follows an earlier run for the same identifier leaves what it
  would have left without the earlier run; and a re-run on the same input whose clock
  readings are later on the same day yields rows that agree in every column but the
  creation time.
\<close>
theorem aggregation_rerun_idempotent:
  "(generate_analytics_summaries env run_id df db = (Inr u, db_a) \<longrightarrow>
      generate_analytics_summaries env run_id df db_a = (Inr u, db_a) \<and>
      run_rows run_id db_a = analytics_summaries env run_id (map snd df) \<and>
      other_rows run_id db_a = other_rows run_id db \<and>
      (\<forall>env' df' db3. generate_analytics_summaries env' run_id df' db_a = (Inr u, db3) \<longrightarrow>
         generate_analytics_summaries env' run_id df' db = (Inr u, db3)) \<and>
      (\<forall>clock db3.
         (\<forall>p. fst (clock p) = fst (env_now env p)) \<and>
         generate_analytics_summaries (env\<lparr>env_now := clock\<rparr>) run_id df db_a = (Inr u, db3) \<longrightarrow>
           map summary_columns (run_rows run_id db3) = map summary_columns (run_rows run_id db_a) \<and>
           other_rows run_id db3 = other_rows run_id db_a)) \<and>
   (generate_basic_analytics env run_id raw_df clean_df invalid_df db = (Inr u, db_b) \<longrightarrow>
      generate_basic_analytics env run_id raw_df clean_df invalid_df db_b = (Inr u, db_b) \<and>
      basic_summaries env run_id clean_df = Inr (run_rows run_id db_b) \<and>
      other_rows run_id db_b = other_rows run_id db \<and>
      (\<forall>env' raw_df' clean_df' invalid_df' db3.
         generate_basic_analytics env' run_id raw_df' clean_df' invalid_df' db_b = (Inr u, db3) \<longrightarrow>
         generate_basic_analytics env' run_id raw_df' clean_df' invalid_df' db = (Inr u, db3)) \<and>
      (\<forall>clock db3.
         (\<forall>p. fst (clock p) = fst (env_now env p)) \<and>
         generate_basic_analytics (env\<lparr>env_now := clock\<rparr>) run_id raw_df clean_df invalid_df db_b =
           (Inr u, db3) \<longrightarrow>
           map summary_columns (run_rows run_id db3) = map summary_columns (run_rows run_id db_b) \<and>
           other_rows run_id db3 = other_rows run_id db_b))"
proof (intro conjI impI)
  assume g: "generate_analytics_summaries env run_id df db = (Inr u, db_a)"
  let ?ss = "analytics_summaries env run_id (map snd df)"
  note g' = g[unfolded generate_analytics_summaries_success]
  note f = filter_run_all[of ?ss run_id, OF analytics_summaries_run]
  have d: "db_a = db\<lparr>analytics_summary :=
      filter (\<lambda>s. s_run_id s \<noteq> run_id) (analytics_summary db) @ ?ss\<rparr>"
    using g' by blast
  show "generate_analytics_summaries env run_id df db_a = (Inr u, db_a)"
    unfolding generate_analytics_summaries_success using g' by (simp add: d f)
  show r: "run_rows run_id db_a = ?ss"
    by (simp add: run_rows_def d f)
  show o: "other_rows run_id db_a = other_rows run_id db"
    by (simp add: other_rows_def d f)
  show "\<forall>env' df' db3. generate_analytics_summaries env' run_id df' db_a = (Inr u, db3) \<longrightarrow>
         generate_analytics_summaries env' run_id df' db = (Inr u, db3)"
    unfolding generate_analytics_summaries_success by (simp add: d f)
  show "\<forall>clock db3.
         (\<forall>p. fst (clock p) = fst (env_now env p)) \<and>
         generate_analytics_summaries (env\<lparr>env_now := clock\<rparr>) run_id df db_a = (Inr u, db3) \<longrightarrow>
           map summary_columns (run_rows run_id db3) = map summary_columns (run_rows run_id db_a) \<and>
           other_rows run_id db3 = other_rows run_id db_a"
  proof (intro allI impI, elim conjE)
    fix clock db3
    assume c: "\<forall>p. fst (clock p) = fst (env_now env p)"
      and h: "generate_analytics_summaries (env\<lparr>env_now := clock\<rparr>) run_id df db_a = (Inr u, db3)"
    let ?ss' = "analytics_summaries (env\<lparr>env_now := clock\<rparr>) run_id (map snd df)"
    note f' = filter_run_all[of ?ss' run_id, OF analytics_summaries_run]
    have d3: "db3 = db_a\<lparr>analytics_summary :=
        filter (\<lambda>s. s_run_id s \<noteq> run_id) (analytics_summary db_a) @ ?ss'\<rparr>"
      using h[unfolded generate_analytics_summaries_success] by blast
    have "run_rows run_id db3 = ?ss'"
      by (simp add: run_rows_def d3 f')
    moreover have "other_rows run_id db3 = other_rows run_id db_a"
      by (simp add: other_rows_def d3 f')
    ultimately show "map summary_columns (run_rows run_id db3) =
        map summary_columns (run_rows run_id db_a) \<and>
        other_rows run_id db3 = other_rows run_id db_a"
      using analytics_summaries_columns[OF c] r by simp
  qed
next
  assume g: "generate_basic_analytics env run_id raw_df clean_df invalid_df db = (Inr u, db_b)"
  from g obtain ss where ss: "basic_summaries env run_id clean_df = Inr ss"
    and d: "db_b = db\<lparr>analytics_summary :=
                    filter (\<lambda>s. s_run_id s \<noteq> run_id) (analytics_summary db) @ ss\<rparr>"
    and io: "env_fails env DeleteBasicSummaries = None" "env_fails env InsertBasicSummaries = None"
    unfolding generate_basic_analytics_success by blast
  note f = filter_run_all[of ss run_id, OF basic_summaries_run[OF ss]]
  show "generate_basic_analytics env run_id raw_df clean_df invalid_df db_b = (Inr u, db_b)"
    unfolding generate_basic_analytics_success using io ss by (simp add: d f)
  have r: "run_rows run_id db_b = ss"
    by (simp add: run_rows_def d f)
  show "basic_summaries env run_id clean_df = Inr (run_rows run_id db_b)"
    using ss r by simp
  show "other_rows run_id db_b = other_rows run_id db"
    by (simp add: other_rows_def d f)
  show "\<forall>env' raw_df' clean_df' invalid_df' db3.
         generate_basic_analytics env' run_id raw_df' clean_df' invalid_df' db_b = (Inr u, db3) \<longrightarrow>
         generate_basic_analytics env' run_id raw_df' clean_df' invalid_df' db = (Inr u, db3)"
    unfolding generate_basic_analytics_success by (simp add: d f)
  show "\<forall>clock db3.
         (\<forall>p. fst (clock p) = fst (env_now env p)) \<and>
         generate_basic_analytics (env\<lparr>env_now := clock\<rparr>) run_id raw_df clean_df invalid_df db_b =
           (Inr u, db3) \<longrightarrow>
           map summary_columns (run_rows run_id db3) = map summary_columns (run_rows run_id db_b) \<and>
           other_rows run_id db3 = other_rows run_id db_b"
  proof (intro allI impI, elim conjE)
    fix clock db3
    assume c: "\<forall>p. fst (clock p) = fst (env_now env p)"
      and h: "generate_basic_analytics (env\<lparr>env_now := clock\<rparr>) run_id raw_df clean_df invalid_df db_b =
           (Inr u, db3)"
    from h obtain ss' where ss': "basic_summaries (env\<lparr>env_now := clock\<rparr>) run_id clean_df = Inr ss'"
      and d3: "db3 = db_b\<lparr>analytics_summary :=
                    filter (\<lambda>s. s_run_id s \<noteq> run_id) (analytics_summary db_b) @ ss'\<rparr>"
      unfolding generate_basic_analytics_success by blast
    note f' = filter_run_all[of ss' run_id, OF basic_summaries_run[OF ss']]
    have "run_rows run_id db3 = ss'"
      by (simp add: run_rows_def d3 f')
    moreover have "other_rows run_id db3 = other_rows run_id db_b"
      by (simp add: other_rows_def d3 f')
    ultimately show "map summary_columns (run_rows run_id db3) =
        map summary_columns (run_rows run_id db_b) \<and>
        other_rows run_id db3 = other_rows run_id db_b"
      using basic_summaries_columns[OF c ss ss'] r by simp
  qed
qed

lemma sample_summaries_succeed:
  "fst (generate_analytics_summaries sample_env ''run1'' sample_clean empty_db) = Inr ()"
  by code_simp

lemma sample_basic_succeeds:
  "fst (generate_basic_analytics sample_env ''run1'' sample_batch
          [(0, sample_row ''A'' ''North'' 5 100)] [(2, sample_row [] ''South'' 2 20)] empty_db) =
     Inr ()"
  by code_simp

lemma sample_basic_later_succeeds:
  "fst (generate_basic_analytics (sample_env\<lparr>env_now := later_clock\<rparr>) ''run1'' sample_batch
          [(0, sample_row ''A'' ''North'' 5 100)] [(2, sample_row [] ''South'' 2 20)]
          (snd (generate_basic_analytics sample_env ''run1'' sample_batch
                  [(0, sample_row ''A'' ''North'' 5 100)] [(2, sample_row [] ''South'' 2 20)]
                  empty_db))) =
     Inr ()"
  by code_simp

lemma later_clock_same_day: "\<forall>p. fst (later_clock p) = fst (env_now sample_env p)"
  by (simp add: later_clock_def sample_env_def sample_clock_def)

theorem aggregation_rerun_idempotent_witness:
  "generate_analytics_summaries sample_env ''run1'' sample_clean
     (snd (generate_analytics_summaries sample_env ''run1'' sample_clean empty_db)) =
   generate_analytics_summaries sample_env ''run1'' sample_clean empty_db \<and>
   generate_basic_analytics sample_env ''run1'' sample_batch
     [(0, sample_row ''A'' ''North'' 5 100)] [(2, sample_row [] ''South'' 2 20)]
     (snd (generate_basic_analytics sample_env ''run1'' sample_batch
             [(0, sample_row ''A'' ''North'' 5 100)] [(2, sample_row [] ''South'' 2 20)]
             empty_db)) =
   generate_basic_analytics sample_env ''run1'' sample_batch
     [(0, sample_row ''A'' ''North'' 5 100)] [(2, sample_row [] ''South'' 2 20)] empty_db \<and>
   map summary_columns (run_rows ''run1''
     (snd (generate_basic_analytics (sample_env\<lparr>env_now := later_clock\<rparr>) ''run1'' sample_batch
             [(0, sample_row ''A'' ''North'' 5 100)] [(2, sample_row [] ''South'' 2 20)]
             (snd (generate_basic_analytics sample_env ''run1'' sample_batch
                     [(0, sample_row ''A'' ''North'' 5 100)] [(2, sample_row [] ''South'' 2 20)]
                     empty_db))))) =
   map summary_columns (run_rows ''run1''
     (snd (generate_basic_analytics sample_env ''run1'' sample_batch
             [(0, sample_row ''A'' ''North'' 5 100)] [(2, sample_row [] ''South'' 2 20)]
             empty_db)))"
proof -
  let ?k = "[(0::nat, sample_row ''A'' ''North'' 5 100)]"
  let ?i = "[(2::nat, sample_row [] ''South'' 2 20)]"
  let ?a = "generate_analytics_summaries sample_env ''run1'' sample_clean empty_db"
  let ?b = "generate_basic_analytics sample_env ''run1'' sample_batch ?k ?i empty_db"
  let ?c = "generate_basic_analytics (sample_env\<lparr>env_now := later_clock\<rparr>) ''run1'' sample_batch
      ?k ?i (snd ?b)"
  have a: "?a = (Inr (), snd ?a)"
    using sample_summaries_succeed by (metis prod.collapse)
  have b: "?b = (Inr (), snd ?b)"
    using sample_basic_succeeds by (metis prod.collapse)
  have c: "?c = (Inr (), snd ?c)"
    using sample_basic_later_succeeds by (metis prod.collapse)
  note th = aggregation_rerun_idempotent
    [where env = sample_env and run_id = "''run1''" and df = sample_clean and db = empty_db
       and u = "()" and db_a = "snd ?a" and raw_df = sample_batch and clean_df = ?k
       and invalid_df = ?i and db_b = "snd ?b"]
  note ta = conjunct1 [OF th, rule_format, OF a]
  note tb = conjunct2 [OF th, rule_format, OF b]
  have r1: "generate_analytics_summaries sample_env ''run1'' sample_clean (snd ?a) = ?a"
    using conjunct1 [OF ta] a by simp
  have r2: "generate_basic_analytics sample_env ''run1'' sample_batch ?k ?i (snd ?b) = ?b"
    using conjunct1 [OF tb] b by simp
  note tc = conjunct2 [OF conjunct2 [OF conjunct2 [OF conjunct2 [OF tb]]], rule_format,
      OF conjI [OF later_clock_same_day c]]
  show ?thesis
    using r1 r2 conjunct1 [OF tc] by simp
qed

lemma set_duplicate_dropped: "set (duplicate_dropped df) \<subseteq> set df"
  unfolding duplicate_dropped_def by (rule set_select_mask)

text \<open>
  Claim C5 (amended). In a run whose steps all succeed the exception records written
  are one per rule-rejected record, in batch order, with the record's label, its category,
  its details, the stage VALIDATION and its raw field values; no exception record is
  written for a duplicate-dropped record.
\<close>
theorem rule_rejected_exception_records:
  assumes "env_read_csv env = Inr df"
    and "pipeline_steps env run_id db = (Inr res, db')"
  shows "case validation_stage (env_to_datetime env) (rows df) of
           (kept, dropped, rejected) \<Rightarrow>
             exceptions db' =
               exceptions db @
                 map (\<lambda>(idx, r).
                        \<lparr>e_run_id = run_id, original_record_id = idx,
                         error_category = categorize_error r, pipeline_stage = ''VALIDATION'',
                         error_details = generate_error_details r, raw_data = r\<rparr>)
                   rejected \<and>
             (\<forall>(idx, r) \<in> set dropped.
                \<forall>e \<in> set (drop (length (exceptions db)) (exceptions db')).
                  \<not> (original_record_id e = idx \<and> raw_data e = r))"
proof -
  let ?td = "env_to_datetime env"
  let ?d = "duplicate_dropped (filter (accepted ?td) (rows df))"
  let ?r = "filter (\<lambda>x. \<not> accepted ?td x) (rows df)"
  from pipeline_steps_success[OF assms]
  have e: "exceptions db' = exceptions db @ exception_data run_id ?r ''VALIDATION''"
    by (auto simp: validation_stage_eq)
  have n: "\<not> (original_record_id x = idx \<and> raw_data x = r)"
    if d: "(idx, r) \<in> set ?d" and x: "x \<in> set (exception_data run_id ?r ''VALIDATION'')"
    for idx r x
  proof -
    have "accepted ?td (idx, r)"
      using d set_duplicate_dropped[of "filter (accepted ?td) (rows df)"] by auto
    moreover have "\<not> accepted ?td (original_record_id x, raw_data x)"
      using x by (auto simp: exception_data_def)
    ultimately show ?thesis
      by auto
  qed
  have a: "exceptions db' =
      exceptions db @
        map (\<lambda>(idx, r).
               \<lparr>e_run_id = run_id, original_record_id = idx,
                error_category = categorize_error r, pipeline_stage = ''VALIDATION'',
                error_details = generate_error_details r, raw_data = r\<rparr>) ?r"
    by (simp add: e exception_data_def)
  have dr: "drop (length (exceptions db)) (exceptions db') =
      exception_data run_id ?r ''VALIDATION''"
    by (simp add: e)
  have b: "\<forall>(idx, r) \<in> set ?d.
      \<forall>e \<in> set (drop (length (exceptions db)) (exceptions db')).
        \<not> (original_record_id e = idx \<and> raw_data e = r)"
    unfolding dr using n by blast
  show ?thesis
    unfolding validation_stage_eq prod.case
    using a b by (rule conjI)
qed

text \<open>
  Claim C5, as stated, fails: in the sample batch record 1 repeats the identifier of
  record 0 and is dropped as a duplicate, record 2 lacks its identifier; the run succeeds
  and its only exception record is that of record 2.
\<close>
theorem duplicate_dropped_counterexample:
  "fst (snd (validation_stage sample_to_datetime sample_batch)) =
     [(1, sample_row ''A'' ''North'' 3 60)] \<and>
   rs_status (projr (fst (run_pipeline sample_env ''run1'' empty_db))) = ''SUCCESS'' \<and>
   map original_record_id (exceptions (snd (run_pipeline sample_env ''run1'' empty_db))) = [2]"
  by code_simp

lemma sample_steps_succeed:
  "\<not> isl (fst (pipeline_steps sample_env ''run1'' empty_db))"
  by code_simp

lemma sample_steps:
  "\<exists>res. pipeline_steps sample_env ''run1'' empty_db =
     (Inr res, snd (pipeline_steps sample_env ''run1'' empty_db))"
proof -
  obtain res where "fst (pipeline_steps sample_env ''run1'' empty_db) = Inr res"
    using sample_steps_succeed by (cases "fst (pipeline_steps sample_env ''run1'' empty_db)") auto
  then show ?thesis
    by (metis prod.collapse)
qed

lemma sample_read: "env_read_csv sample_env = Inr \<lparr>columns = original_columns, rows = sample_batch\<rparr>"
  by (simp add: sample_env_def)

theorem rule_rejected_exception_records_witness:
  "exceptions (snd (pipeline_steps sample_env ''run1'' empty_db)) =
     [\<lparr>e_run_id = ''run1'', original_record_id = 2,
       error_category = ''MISSING_REQUIRED_FIELD'', pipeline_stage = ''VALIDATION'',
       error_details = [Msg ''Missing order ID''], raw_data = sample_row [] ''South'' 2 20\<rparr>]"
proof -
  obtain res where p: "pipeline_steps sample_env ''run1'' empty_db =
      (Inr res, snd (pipeline_steps sample_env ''run1'' empty_db))"
    using sample_steps by blast
  have td: "env_to_datetime sample_env = sample_to_datetime"
    by (simp add: sample_env_def)
  note th = rule_rejected_exception_records [OF sample_read p]
  from th show ?thesis
    unfolding td raw_frame.simps sample_stage prod.case
    by (simp add: empty_db_def categorize_error_def generate_error_details_def sample_row_def
          Let_def valid_regions_def)
qed

lemma filter_if_nonempty: "(if xs \<noteq> [] then filter P xs else []) = filter P xs"
  by simp

lemma basic_summary_total:
  "total_revenue (basic_summary env run_id i g p sel) =
     sum_revenue env (map (\<lambda>(idx, r). revenue r) sel) \<and>
   daily_sales (basic_summary env run_id i g p sel) =
     sum_revenue env (map (\<lambda>(idx, r). revenue r) sel) \<and>
   total_orders (basic_summary env run_id i g p sel) = length sel \<and>
   s_region (basic_summary env run_id i g p sel) = g \<and>
   s_product (basic_summary env run_id i g p sel) = p \<and>
   calculation_date (basic_summary env run_id i g p sel) = fst (env_now env BasicDate)"
  by (simp add: basic_summary_def sum_revenue_def)

lemma basic_summaries_rows:
  assumes "basic_summaries env run_id clean_df = Inr ss"
  shows "ss =
     basic_summary env run_id 0 ''ALL'' ''ALL'' clean_df #
     map (\<lambda>(i, g). basic_summary env run_id i g ''ALL''
                      (filter (\<lambda>(idx, r). region r = Some g) clean_df)) (enumerate 1 regions) @
     map (\<lambda>(i, p). basic_summary env run_id i ''ALL'' p
                      (filter (\<lambda>(idx, r). str_contains (product r) (split_first p)) clean_df))
       (enumerate (1 + length regions) products)"
  using assms
  unfolding basic_summaries_def Let_def filter_if_nonempty
  by (auto split: sum.splits)

lemma matching_basic:
  "matching (basic_summary env run_id i ''ALL'' ''ALL'' sel) df = df"
  "g \<noteq> ''ALL'' \<Longrightarrow>
     matching (basic_summary env run_id i g ''ALL'' sel) df =
       filter (\<lambda>(idx, r). region r = Some g) df"
  "p \<noteq> ''ALL'' \<Longrightarrow>
     matching (basic_summary env run_id i ''ALL'' p sel) df =
       filter (\<lambda>(idx, r). str_contains (product r) (split_first p)) df"
  by (simp_all add: matching_def basic_summary_total case_prod_unfold)

lemma basic_rows_props:
  assumes "basic_summaries env run_id clean_df = Inr ss"
  shows "map (\<lambda>s. (s_region s, s_product s)) ss =
           (''ALL'', ''ALL'') # map (\<lambda>g. (g, ''ALL'')) regions @ map (\<lambda>p. (''ALL'', p)) products \<and>
         (\<forall>s \<in> set ss.
            total_orders s = length (matching s clean_df) \<and>
            total_revenue s = sum_revenue env (map (\<lambda>(idx, r). revenue r) (matching s clean_df)) \<and>
            daily_sales s = total_revenue s \<and>
            calculation_date s = fst (env_now env BasicDate))"
  unfolding basic_summaries_rows[OF assms]
  by (simp add: regions_def products_def basic_summary_total matching_basic)

text \<open>
  Claim C4 (amended). After a run whose steps all succeed the summaries persisted for
  the run are those of the basic analytics, which replace the transformer's: the grand
  total (ALL, ALL), one row per region of the fixed list and one row per product of the
  fixed list, in this order. Each row counts and sums the kept records matching it (by
  region, or by the first word of the product name), so a region or product without
  records has count zero and revenue zero; every row is dated by the clock, so no row per
  order date remains; the summaries of other runs are untouched.
\<close>
theorem aggregation_output:
  assumes "env_read_csv env = Inr df"
    and "pipeline_steps env run_id db = (Inr res, db')"
  shows "case validation_stage (env_to_datetime env) (rows df) of
           (kept, dropped, rejected) \<Rightarrow>
             map (\<lambda>s. (s_region s, s_product s)) (run_rows run_id db') =
               (''ALL'', ''ALL'') # map (\<lambda>g. (g, ''ALL'')) regions @
                 map (\<lambda>p. (''ALL'', p)) products \<and>
             (\<forall>s \<in> set (run_rows run_id db').
                total_orders s = length (matching s kept) \<and>
                total_revenue s =
                  sum_revenue env (map (\<lambda>(idx, r). revenue r) (matching s kept)) \<and>
                daily_sales s = total_revenue s \<and>
                (matching s kept = [] \<longrightarrow> total_orders s = 0 \<and> total_revenue s = Fin 0) \<and>
                calculation_date s = fst (env_now env BasicDate)) \<and>
             other_rows run_id db' = other_rows run_id db"
proof -
  let ?k = "drop_duplicates (filter (accepted (env_to_datetime env)) (rows df))"
  from pipeline_steps_success[OF assms]
  obtain ss where ss: "basic_summaries env run_id ?k = Inr ss"
    and r: "run_rows run_id db' = ss"
    and o: "other_rows run_id db' = other_rows run_id db"
    by (auto simp: validation_stage_eq)
  note b = basic_rows_props[OF ss]
  have z: "sum_revenue env (map (\<lambda>(idx, r). revenue r) []) = Fin 0"
    by (simp add: sum_revenue_def List.map_filter_simps)
  have c: "\<forall>s \<in> set ss.
      total_orders s = length (matching s ?k) \<and>
      total_revenue s = sum_revenue env (map (\<lambda>(idx, r). revenue r) (matching s ?k)) \<and>
      daily_sales s = total_revenue s \<and>
      (matching s ?k = [] \<longrightarrow> total_orders s = 0 \<and> total_revenue s = Fin 0) \<and>
      calculation_date s = fst (env_now env BasicDate)"
    using conjunct2 [OF b] z by auto
  show ?thesis
    unfolding validation_stage_eq prod.case r
    using conjunct1 [OF b] c o by (intro conjI)
qed

text \<open>
  Claim C4, as stated, fails: the sample run keeps one North record ordered on
  2024-01-15 and runs on 2024-03-01. Its eleven persisted summaries are all dated
  2024-03-01, none by the order date; and the transformer's own summaries, which hold a
  daily row, have a regional row for North only.
\<close>
theorem aggregation_output_counterexample:
  "map c_order_date (map snd (projr (fst (transform_clean_data sample_env ''run1''
      [(0, sample_row ''A'' ''North'' 5 100)] empty_db)))) = [Some (2024, 1, 15)] \<and>
   map calculation_date (analytics_summary (snd (run_pipeline sample_env ''run1'' empty_db))) =
     replicate 11 (2024, 3, 1) \<and>
   map s_region (analytics_summaries sample_env ''run1'' (map snd sample_clean)) =
     [''ALL'', ''North'', ''ALL'', ''ALL'']"
  by code_simp

theorem aggregation_output_witness:
  "map (\<lambda>s. (s_region s, s_product s))
     (run_rows ''run1'' (snd (pipeline_steps sample_env ''run1'' empty_db))) =
     (''ALL'', ''ALL'') # map (\<lambda>g. (g, ''ALL'')) regions @ map (\<lambda>p. (''ALL'', p)) products \<and>
   total_orders (run_rows ''run1'' (snd (pipeline_steps sample_env ''run1'' empty_db)) ! 1) = 1 \<and>
   total_orders (run_rows ''run1'' (snd (pipeline_steps sample_env ''run1'' empty_db)) ! 2) = 0 \<and>
   total_revenue (run_rows ''run1'' (snd (pipeline_steps sample_env ''run1'' empty_db)) ! 2) =
     Fin 0"
proof -
  let ?rows = "run_rows ''run1'' (snd (pipeline_steps sample_env ''run1'' empty_db))"
  let ?k = "[(0::nat, sample_row ''A'' ''North'' 5 100)]"
  obtain res where p: "pipeline_steps sample_env ''run1'' empty_db =
      (Inr res, snd (pipeline_steps sample_env ''run1'' empty_db))"
    using sample_steps by blast
  have td: "env_to_datetime sample_env = sample_to_datetime"
    by (simp add: sample_env_def)
  note th = aggregation_output [OF sample_read p, unfolded td raw_frame.simps sample_stage prod.case]
  note names = conjunct1 [OF th]
  have len: "length ?rows = 11"
    using arg_cong [OF names, of length] by (simp add: regions_def products_def)
  have n1: "(s_region (?rows ! 1), s_product (?rows ! 1)) = (''North'', ''ALL'')"
    using arg_cong [OF names, of "\<lambda>l. l ! 1"] len by (simp add: regions_def products_def)
  have n2: "(s_region (?rows ! 2), s_product (?rows ! 2)) = (''South'', ''ALL'')"
    using arg_cong [OF names, of "\<lambda>l. l ! 2"] len by (simp add: regions_def products_def)
  have m1: "?rows ! 1 \<in> set ?rows" and m2: "?rows ! 2 \<in> set ?rows"
    using len by simp_all
  have k1: "matching (?rows ! 1) ?k = ?k"
    using n1 by (simp add: matching_def sample_row_def)
  have k2: "matching (?rows ! 2) ?k = []"
    using n2 by (simp add: matching_def sample_row_def)
  note r1 = conjunct1 [OF conjunct2 [OF th], rule_format, OF m1]
  note r2 = conjunct1 [OF conjunct2 [OF th], rule_format, OF m2]
  have a: "total_orders (?rows ! 1) = 1"
    using r1 [unfolded k1] by simp
  have b: "total_orders (?rows ! 2) = 0 \<and> total_revenue (?rows ! 2) = Fin 0"
    using r2 [unfolded k2] by blast
  show ?thesis
    using names a b by simp
qed

end
